theory Spec2Isabelle
  imports Main "HOL-Library.AList" "HOL-Library.Sublist"
begin

section \<open>Data model\<close>

text \<open>
  The sharder of \<^verbatim>\<open>colossalai/shardformer/shard/sharder.py\<close> rewrites a tree of
  modules in place. A module is a node with a class and an ordered table of named
  attributes; an attribute holds \<^verbatim>\<open>None\<close>, an integer, a string, a tensor, a parameter
  (a tensor wrapped by \<^verbatim>\<open>nn.Parameter\<close>) or a sub-module. The modules form a tree: no
  module is held by two attributes. The parameters, the sub-modules and the plain
  attributes of a module share one table, in which \<^verbatim>\<open>named_children()\<close> finds the
  sub-modules in order. An exception leaves the mutations made before it in place, so
  every operation that mutates returns the state next to the exception, if any.
\<close>

text \<open>
  A class is identified by its name; \<open>ckind\<close> records the outcome of the two
  \<^verbatim>\<open>isinstance\<close> tests the sharder makes (\<^verbatim>\<open>nn.Linear\<close>, then \<^verbatim>\<open>nn.Embedding\<close>).
\<close>

datatype layer_kind = LinearKind | EmbeddingKind | OtherKind

datatype pyclass = PyClass (cname: string) (ckind: layer_kind)

text \<open>A tensor: its shape and its elements, which the sharder never inspects.\<close>

datatype tensor = Tensor (shape: "nat list") (elems: "int list")

datatype val =
    VNone
  | VInt int
  | VStr string
  | VTensor tensor
  | VParam tensor
  | VObj node
and node = Node (ncls: pyclass) (nattrs: "(string \<times> val) list")

text \<open>The exceptions the pass can raise.\<close>

datatype error =
    UnsupportedModelError     \<comment> \<open>\<^verbatim>\<open>NotImplementedError\<close> of \<^verbatim>\<open>inject_model\<close>\<close>
  | MissingAttributeError     \<comment> \<open>\<^verbatim>\<open>ValueError\<close>: the layer has no attribute at a declared path\<close>
  | UnsupportedLayerError     \<comment> \<open>\<^verbatim>\<open>NotImplementedError\<close>: no replacement for this layer kind\<close>
  | AttributeError
  | AssertionError
  | TypeError
  | IndexError
  | KeyError
  | UnboundLocalError
  | SlicerError               \<comment> \<open>whatever the slicer raises\<close>

section \<open>Dotted attribute paths\<close>

text \<open>
  \<^verbatim>\<open>attr.split('.')\<close>: the components between the dots; never the empty list.
  \<open>cons_first\<close> puts a character in front of the first component.
\<close>

fun cons_first :: "char \<Rightarrow> string list \<Rightarrow> string list" where
  "cons_first c [] = [[c]]"
| "cons_first c (w # ws) = (c # w) # ws"

fun split_dot :: "string \<Rightarrow> string list" where
  "split_dot [] = [[]]"
| "split_dot (c # cs) =
     (if c = CHR ''.'' then [] # split_dot cs else cons_first c (split_dot cs))"

text \<open>\<^verbatim>\<open>getattr(obj, a)\<close> on one level; only modules carry attributes in this model.\<close>

fun getattr1 :: "val \<Rightarrow> string \<Rightarrow> val option" where
  "getattr1 (VObj (Node c attrs)) a = map_of attrs a"
| "getattr1 _ a = None"

text \<open>
  \<^verbatim>\<open>setattr(obj, a, value)\<close> on one level: an existing name keeps its place in the
  table, a new name goes last.
\<close>

fun setattr1 :: "val \<Rightarrow> string \<Rightarrow> val \<Rightarrow> error + val" where
  "setattr1 (VObj (Node c attrs)) a v = Inr (VObj (Node c (AList.update a v attrs)))"
| "setattr1 _ a v = Inl AttributeError"

fun resolve_path :: "val \<Rightarrow> string list \<Rightarrow> val option" where
  "resolve_path obj [] = Some obj"
| "resolve_path obj (a # as) =
     (case getattr1 obj a of None \<Rightarrow> None | Some obj' \<Rightarrow> resolve_path obj' as)"

text \<open>
  Modelled from the spec: the dotted attribute-path utilities \<^verbatim>\<open>hasattr_\<close>,
  \<^verbatim>\<open>getattr_\<close> and \<^verbatim>\<open>setattr_\<close> of \<^verbatim>\<open>shardformer/utils/utils.py\<close>, which is not
  among the sources (here \<open>hasattr_dot\<close>, \<open>getattr_dot\<close>, \<open>setattr_dot\<close>: a name cannot
  end in an underscore). They address nested fields by a dotted path over a node's named
  attributes; not-found is an explicit result, and the \<open>ignore\<close> flag says whether the
  caller tolerates it silently.
\<close>

definition hasattr_dot :: "node \<Rightarrow> string \<Rightarrow> bool" where
  "hasattr_dot obj attr = (resolve_path (VObj obj) (split_dot attr) \<noteq> None)"

definition getattr_dot :: "node \<Rightarrow> string \<Rightarrow> bool \<Rightarrow> error + val" where
  "getattr_dot obj attr ign =
     (case resolve_path (VObj obj) (split_dot attr) of
        Some v \<Rightarrow> Inr v
      | None \<Rightarrow> if ign then Inr VNone else Inl AttributeError)"

text \<open>
  \<open>set_path\<close> walks to the owner of the last component and sets the attribute there.
  The owner is mutated in place in the program; here every object on the way is rebuilt
  around its updated child.
\<close>

fun set_path :: "val \<Rightarrow> string list \<Rightarrow> val \<Rightarrow> bool \<Rightarrow> error + val" where
  "set_path obj [] v ign = Inr obj"
| "set_path obj [a] v ign = setattr1 obj a v"
| "set_path obj (a # b # bs) v ign =
     (case getattr1 obj a of
        None \<Rightarrow> if ign then Inr obj else Inl AttributeError
      | Some child \<Rightarrow>
          (case set_path child (b # bs) v ign of
             Inl e \<Rightarrow> Inl e
           | Inr child' \<Rightarrow> setattr1 obj a child'))"

definition as_node :: "val \<Rightarrow> node \<Rightarrow> node" where
  "as_node v d = (case v of VObj n \<Rightarrow> n | _ \<Rightarrow> d)"

definition setattr_dot :: "node \<Rightarrow> string \<Rightarrow> val \<Rightarrow> bool \<Rightarrow> error + node" where
  "setattr_dot obj attr v ign =
     (case set_path (VObj obj) (split_dot attr) v ign of
        Inl e \<Rightarrow> Inl e
      | Inr obj' \<Rightarrow> Inr (as_node obj' obj))"

section \<open>Policies, the environment and the sharder's state\<close>

text \<open>
  A slice instruction (\<^verbatim>\<open>Layer\<close> of \<^verbatim>\<open>policies/basepolicy.py\<close> and its subclasses
  \<^verbatim>\<open>Col_Layer\<close>, \<^verbatim>\<open>Row_Layer\<close>): the attribute paths of the weight and the bias, the
  replacement class, the \<open>ignore\<close> flag, the instruction's own class, and the
  \<open>gather_output\<close> flag that only a \<^verbatim>\<open>Col_Layer\<close> carries.
\<close>

datatype layer_cls = Col_Layer | Row_Layer | Layer

record policy_layer =
  weight :: "string option"
  bias :: "string option"
  replace_layer :: "pyclass option"
  ignore :: bool
  lcls :: layer_cls
  gather_output :: bool

text \<open>One entry of \<^verbatim>\<open>policy.argument_policy(...)\<close>; a producer of \<open>param_funcs\<close> is
  given by the list of instructions it returns.\<close>

record argument =
  attr_dict :: "(string \<times> val) list"
  param_funcs :: "policy_layer list list"
  binding_layers :: "pyclass list"

text \<open>The arguments a replacement layer is constructed with.\<close>

datatype ctor_args =
    LinearArgs nat nat bool "bool option"
      \<comment> \<open>two sizes, \<^verbatim>\<open>bias=\<close>, and \<^verbatim>\<open>gather_output=\<close> when it is passed\<close>
  | EmbeddingArgs nat nat val

text \<open>
  What the sharder consumes and this file does not define: the slicer
  (\<^verbatim>\<open>Slicer.slice_weight_bias\<close>), the constructors of the replacement layers
  (\<^verbatim>\<open>colossalai.nn\<close>) and the process environment (\<^verbatim>\<open>os.environ['RANK']\<close>).
\<close>

record env =
  slice_weight_bias :: "val \<Rightarrow> val \<Rightarrow> layer_cls \<Rightarrow> error + (val \<times> val)"
  construct :: "pyclass \<Rightarrow> ctor_args \<Rightarrow> node"
  environ_RANK :: "string option"

text \<open>
  The state of one call of \<^verbatim>\<open>shard_one_layer\<close>: the layer being sharded, the sharder's
  binding map, and the two local variables that live across loop iterations
  (\<open>None\<close>: not bound yet).
\<close>

type_synonym bmap = "pyclass \<Rightarrow> (val \<times> val) option"

record sstate =
  org_layer :: node
  binding_map :: bmap
  loc_gather_output :: "bool option"
  loc_replace_layer :: "node option"

section \<open>\<^verbatim>\<open>set_layer_size\<close> and \<^verbatim>\<open>set_param\<close>\<close>

text \<open>\<^verbatim>\<open>weight.shape\<close>, \<^verbatim>\<open>size[i]\<close> and \<^verbatim>\<open>nn.Parameter(t)\<close>.\<close>

definition shape_of :: "val \<Rightarrow> error + nat list" where
  "shape_of v =
     (case v of VTensor t \<Rightarrow> Inr (shape t) | VParam t \<Rightarrow> Inr (shape t) | _ \<Rightarrow> Inl AttributeError)"

definition size_at :: "nat list \<Rightarrow> nat \<Rightarrow> error + nat" where
  "size_at sz i = (if i < length sz then Inr (sz ! i) else Inl IndexError)"

text \<open>\<^verbatim>\<open>v.shape[i]\<close>.\<close>

definition shape_at :: "val \<Rightarrow> nat \<Rightarrow> error + nat" where
  "shape_at v i = (case shape_of v of Inl e \<Rightarrow> Inl e | Inr sz \<Rightarrow> size_at sz i)"

definition nn_Parameter :: "val \<Rightarrow> error + val" where
  "nn_Parameter v =
     (case v of VTensor t \<Rightarrow> Inr (VParam t) | VParam t \<Rightarrow> Inr (VParam t) | _ \<Rightarrow> Inl TypeError)"

text \<open>The loop of \<^verbatim>\<open>set_layer_size\<close> over \<^verbatim>\<open>enumerate(["out_features", "in_features"])\<close>.\<close>

fun set_layer_size_loop ::
  "node \<Rightarrow> string \<Rightarrow> nat list \<Rightarrow> (nat \<times> string) list \<Rightarrow> error option \<times> node" where
  "set_layer_size_loop layer layer_attr sz [] = (None, layer)"
| "set_layer_size_loop layer layer_attr sz ((i, attr) # rest) =
     (if hasattr_dot layer (layer_attr @ ''.'' @ attr) then
        (case size_at sz i of
           Inl e \<Rightarrow> (Some e, layer)
         | Inr n \<Rightarrow>
             (case setattr_dot layer (layer_attr @ ''.'' @ attr) (VInt (int n)) False of
                Inl e \<Rightarrow> (Some e, layer)
              | Inr layer' \<Rightarrow> set_layer_size_loop layer' layer_attr sz rest))
      else set_layer_size_loop layer layer_attr sz rest)"

definition set_layer_size :: "node \<Rightarrow> string \<Rightarrow> nat list \<Rightarrow> error option \<times> node" where
  "set_layer_size layer layer_attr sz =
     set_layer_size_loop layer layer_attr sz [(0, ''out_features''), (1, ''in_features'')]"

text \<open>
  \<^verbatim>\<open>"weight" if layer_attr == "" else layer_attr + ".weight"\<close>. The parameter
  \<open>layer_attr\<close> is a value: when it is not a string, the comparison with \<^verbatim>\<open>""\<close> is
  false and the concatenation raises \<^verbatim>\<open>TypeError\<close>.
\<close>

definition param_path :: "val \<Rightarrow> string \<Rightarrow> error + string" where
  "param_path layer_attr nm =
     (case layer_attr of
        VStr s \<Rightarrow> Inr (if s = [] then nm else s @ ''.'' @ nm)
      | _ \<Rightarrow> Inl TypeError)"

text \<open>\<^verbatim>\<open>setattr_(layer, <path>, nn.Parameter(t))\<close>, the path evaluated first.\<close>

definition install_param :: "node \<Rightarrow> val \<Rightarrow> string \<Rightarrow> val \<Rightarrow> error option \<times> node" where
  "install_param layer layer_attr nm t =
     (case param_path layer_attr nm of
        Inl e \<Rightarrow> (Some e, layer)
      | Inr p \<Rightarrow>
          (case nn_Parameter t of
             Inl e \<Rightarrow> (Some e, layer)
           | Inr pv \<Rightarrow>
               (case setattr_dot layer p pv False of
                  Inl e \<Rightarrow> (Some e, layer)
                | Inr layer' \<Rightarrow> (None, layer'))))"

text \<open>
  \<^verbatim>\<open>set_param(self, layer, layer_attr="", weight=None, bias=None)\<close>, the parameters in
  the order of the signature.
\<close>

definition set_param :: "node \<Rightarrow> val \<Rightarrow> val \<Rightarrow> val \<Rightarrow> error option \<times> node" where
  "set_param layer layer_attr w b =
     (if w = VNone \<and> b = VNone then (Some AssertionError, layer)
      else
        (case (if w = VNone then (None, layer)
               else
                 (case install_param layer layer_attr ''weight'' w of
                    (Some e, l) \<Rightarrow> (Some e, l)
                  | (None, l) \<Rightarrow>
                      (case shape_of w of
                         Inl e \<Rightarrow> (Some e, l)
                       | Inr sz \<Rightarrow>
                           (case layer_attr of
                              VStr s \<Rightarrow> set_layer_size l s sz
                            | _ \<Rightarrow> (Some TypeError, l))))) of
           (Some e, l) \<Rightarrow> (Some e, l)
         | (None, l) \<Rightarrow>
             (if b = VNone then (None, l) else install_param l layer_attr ''bias'' b)))"

text \<open>The components of the path at which \<^verbatim>\<open>set_param\<close> installs the parameter \<open>nm\<close>.\<close>

definition param_comps :: "string \<Rightarrow> string \<Rightarrow> string list" where
  "param_comps la nm = (if la = [] then [nm] else split_dot la @ [nm])"

text \<open>The object at \<open>la\<close> on the layer \<open>l\<close> is a module of the class of \<open>n\<close>.\<close>

definition owner_kept :: "string \<Rightarrow> node \<Rightarrow> node \<Rightarrow> bool" where
  "owner_kept la n l =
     (case resolve_path (VObj l) (split_dot la) of
        Some (VObj n') \<Rightarrow> ncls n' = ncls n
      | _ \<Rightarrow> False)"

section \<open>\<^verbatim>\<open>shard_one_layer\<close>\<close>

text \<open>Lines 153--157 and 159--163: resolving one declared path on the layer.\<close>

definition resolve_attr :: "node \<Rightarrow> string option \<Rightarrow> bool \<Rightarrow> error + val" where
  "resolve_attr org attr ign =
     (case attr of
        None \<Rightarrow> Inr VNone
      | Some a \<Rightarrow>
          (if hasattr_dot org a then getattr_dot org a False
           else if ign then Inr VNone
           else Inl MissingAttributeError))"

text \<open>\<^verbatim>\<open>x.rfind(".")\<close>: the index of the last dot, or \<open>-1\<close>.\<close>

fun rfind_from :: "string \<Rightarrow> int \<Rightarrow> int \<Rightarrow> int" where
  "rfind_from [] i found = found"
| "rfind_from (c # cs) i found = rfind_from cs (i + 1) (if c = CHR ''.'' then i else found)"

definition rfind_dot :: "string \<Rightarrow> int" where
  "rfind_dot x = rfind_from x 0 (- 1)"

text \<open>\<^verbatim>\<open>x[:k]\<close>: a negative \<open>k\<close> counts from the end.\<close>

definition slice_to :: "string \<Rightarrow> int \<Rightarrow> string" where
  "slice_to x k = (if k < 0 then take (nat (int (length x) + k)) x else take (nat k) x)"

text \<open>\<^verbatim>\<open>weight_attr or bias_attr\<close>: the first operand unless it is \<^verbatim>\<open>None\<close> or empty.\<close>

definition py_or :: "string option \<Rightarrow> string option \<Rightarrow> string option" where
  "py_or a b = (case a of None \<Rightarrow> b | Some s \<Rightarrow> if s = [] then b else Some s)"

text \<open>Line 171: \<^verbatim>\<open>(lambda x: x[:x.rfind(".")])(weight_attr or bias_attr)\<close>.\<close>

definition layer_attr_of :: "string \<Rightarrow> string" where
  "layer_attr_of x = slice_to x (rfind_dot x)"

text \<open>Line 175: the \<^verbatim>\<open>print\<close> reads the rank and both shapes.\<close>

definition print_shapes :: "env \<Rightarrow> val \<Rightarrow> val \<Rightarrow> error option" where
  "print_shapes en w b =
     (case environ_RANK en of
        None \<Rightarrow> Some KeyError
      | Some r \<Rightarrow>
          (case shape_of w of
             Inl e \<Rightarrow> Some e
           | Inr sz \<Rightarrow>
               (if b = VNone then None
                else (case shape_of b of Inl e \<Rightarrow> Some e | Inr sz' \<Rightarrow> None))))"

text \<open>Lines 177--178: every binding layer's entry is overwritten with the shard pair.\<close>

fun save_binding :: "pyclass list \<Rightarrow> val \<times> val \<Rightarrow> bmap \<Rightarrow> bmap" where
  "save_binding [] pr bm = bm"
| "save_binding (k # ks) pr bm = save_binding ks pr (bm(k \<mapsto> pr))"

text \<open>\<^verbatim>\<open>isinstance(v, nn.Linear)\<close> and \<^verbatim>\<open>isinstance(v, nn.Embedding)\<close>.\<close>

definition isinstance :: "val \<Rightarrow> layer_kind \<Rightarrow> bool" where
  "isinstance v k = (case v of VObj n \<Rightarrow> ckind (ncls n) = k | _ \<Rightarrow> False)"

text \<open>
  Lines 184--187: the constructor call for a dense linear layer. The sizes are read
  before \<open>gather_output\<close>; a class named neither way leaves \<open>replace_layer\<close> as it was.
\<close>

definition new_linear ::
  "env \<Rightarrow> pyclass \<Rightarrow> val \<Rightarrow> val \<Rightarrow> sstate \<Rightarrow> error option \<times> sstate" where
  "new_linear en rcls w b st =
     (if cname rcls = ''Linear1D_Row'' then
        (case shape_at w 1 of
           Inl e \<Rightarrow> (Some e, st)
         | Inr s1 \<Rightarrow>
             (case shape_at w 0 of
                Inl e \<Rightarrow> (Some e, st)
              | Inr s0 \<Rightarrow>
                  (None, st\<lparr>loc_replace_layer :=
                     Some (construct en rcls (LinearArgs s1 s0 (b \<noteq> VNone) None))\<rparr>)))
      else if cname rcls = ''Linear1D_Col'' then
        (case shape_at w 0 of
           Inl e \<Rightarrow> (Some e, st)
         | Inr s0 \<Rightarrow>
             (case shape_at w 1 of
                Inl e \<Rightarrow> (Some e, st)
              | Inr s1 \<Rightarrow>
                  (case loc_gather_output st of
                     None \<Rightarrow> (Some UnboundLocalError, st)
                   | Some g \<Rightarrow>
                       (None, st\<lparr>loc_replace_layer :=
                          Some (construct en rcls (LinearArgs s0 s1 (b \<noteq> VNone) (Some g)))\<rparr>))))
      else (None, st))"

text \<open>Line 191: the constructor call for an embedding layer.\<close>

definition new_embedding ::
  "env \<Rightarrow> pyclass \<Rightarrow> val \<Rightarrow> string \<Rightarrow> sstate \<Rightarrow> error option \<times> sstate" where
  "new_embedding en rcls w layer_attr st =
     (case shape_at w 0 of
        Inl e \<Rightarrow> (Some e, st)
      | Inr s0 \<Rightarrow>
          (case shape_at w 1 of
             Inl e \<Rightarrow> (Some e, st)
           | Inr s1 \<Rightarrow>
               (case getattr_dot (org_layer st) (layer_attr @ ''.padding_idx'') True of
                  Inl e \<Rightarrow> (Some e, st)
                | Inr pad \<Rightarrow>
                    (None, st\<lparr>loc_replace_layer :=
                       Some (construct en rcls (EmbeddingArgs s0 s1 pad))\<rparr>))))"

text \<open>
  Lines 188--189 and 192--193: \<^verbatim>\<open>setattr_(org_layer, layer_attr, replace_layer,
  ignore=ignore)\<close>, then \<^verbatim>\<open>self.set_param(replace_layer, weight, bias)\<close>. The call passes
  three positional arguments, which \<^verbatim>\<open>set_param\<close> receives as \<open>layer\<close>, \<open>layer_attr\<close>
  and \<open>weight\<close>; its \<open>bias\<close> keeps the default \<^verbatim>\<open>None\<close>. The object that \<^verbatim>\<open>set_param\<close>
  works on is the one just stored at \<open>layer_attr\<close>, so its result is stored there again.
\<close>

definition put_replace_layer ::
  "string \<Rightarrow> bool \<Rightarrow> val \<Rightarrow> val \<Rightarrow> sstate \<Rightarrow> error option \<times> sstate" where
  "put_replace_layer layer_attr ign w b st =
     (case loc_replace_layer st of
        None \<Rightarrow> (Some UnboundLocalError, st)
      | Some rl \<Rightarrow>
          (case setattr_dot (org_layer st) layer_attr (VObj rl) ign of
             Inl e \<Rightarrow> (Some e, st)
           | Inr org1 \<Rightarrow>
               (case set_param rl w b VNone of
                  (e, rl') \<Rightarrow>
                    (e, st\<lparr>org_layer :=
                            (case setattr_dot org1 layer_attr (VObj rl') ign of
                               Inl e' \<Rightarrow> org1
                             | Inr org2 \<Rightarrow> org2),
                          loc_replace_layer := Some rl'\<rparr>))))"

text \<open>Lines 181--198: replace the layer object, or only its weight and bias.\<close>

definition replace_or_set ::
  "env \<Rightarrow> policy_layer \<Rightarrow> string \<Rightarrow> val \<Rightarrow> val \<Rightarrow> sstate \<Rightarrow> error option \<times> sstate" where
  "replace_or_set en pl layer_attr w b st =
     (case replace_layer pl of
        None \<Rightarrow>
          (case set_param (org_layer st) (VStr layer_attr) w b of
             (e, org') \<Rightarrow> (e, st\<lparr>org_layer := org'\<rparr>))
      | Some rcls \<Rightarrow>
          (case getattr_dot (org_layer st) layer_attr False of
             Inl e \<Rightarrow> (Some e, st)
           | Inr target \<Rightarrow>
               (if isinstance target LinearKind then
                  (case new_linear en rcls w b st of
                     (Some e, st') \<Rightarrow> (Some e, st')
                   | (None, st') \<Rightarrow> put_replace_layer layer_attr (ignore pl) w b st')
                else if isinstance target EmbeddingKind then
                  (case new_embedding en rcls w layer_attr st of
                     (Some e, st') \<Rightarrow> (Some e, st')
                   | (None, st') \<Rightarrow> put_replace_layer layer_attr (ignore pl) w b st')
                else (Some UnsupportedLayerError, st))))"

text \<open>Lines 149--151: only a \<^verbatim>\<open>Col_Layer\<close> instruction assigns \<open>gather_output\<close>.\<close>

definition bind_gather :: "policy_layer \<Rightarrow> sstate \<Rightarrow> sstate" where
  "bind_gather pl st =
     (if lcls pl = Col_Layer then st\<lparr>loc_gather_output := Some (gather_output pl)\<rparr> else st)"

text \<open>
  Lines 165--178, with the weight and the bias as resolved: the instruction is over
  (\<open>Inl\<close>: skipped, or an exception), or line 181 is reached (\<open>Inr\<close>) with
  \<open>layer_attr\<close>, the sliced pair and the state after the binding map was written.
\<close>

definition slice_resolved ::
  "env \<Rightarrow> pyclass list \<Rightarrow> policy_layer \<Rightarrow> val \<Rightarrow> val \<Rightarrow> sstate
     \<Rightarrow> (error option \<times> sstate) + (string \<times> val \<times> val \<times> sstate)" where
  "slice_resolved en bl pl w b st =
     (if w = VNone \<and> b = VNone \<and> ignore pl then Inl (None, st)
      else if w = VNone \<and> b = VNone then Inl (Some AssertionError, st)
      else
        (case py_or (weight pl) (bias pl) of
           None \<Rightarrow> Inl (Some AttributeError, st)
         | Some x \<Rightarrow>
             (case slice_weight_bias en w b (lcls pl) of
                Inl e \<Rightarrow> Inl (Some e, st)
              | Inr (w', b') \<Rightarrow>
                  (case print_shapes en w' b' of
                     Some e \<Rightarrow> Inl (Some e, st)
                   | None \<Rightarrow>
                       Inr (layer_attr_of x, w', b',
                            st\<lparr>binding_map := save_binding bl (w', b') (binding_map st)\<rparr>)))))"

text \<open>Lines 143--178: the instruction up to the point where the layer is touched.\<close>

definition slice_stage ::
  "env \<Rightarrow> pyclass list \<Rightarrow> policy_layer \<Rightarrow> sstate
     \<Rightarrow> (error option \<times> sstate) + (string \<times> val \<times> val \<times> sstate)" where
  "slice_stage en bl pl st0 =
     (case resolve_attr (org_layer st0) (weight pl) (ignore pl) of
        Inl e \<Rightarrow> Inl (Some e, bind_gather pl st0)
      | Inr w \<Rightarrow>
          (case resolve_attr (org_layer st0) (bias pl) (ignore pl) of
             Inl e \<Rightarrow> Inl (Some e, bind_gather pl st0)
           | Inr b \<Rightarrow> slice_resolved en bl pl w b (bind_gather pl st0)))"

text \<open>Lines 143--198: the body of the inner loop, for one instruction.\<close>

definition shard_instruction ::
  "env \<Rightarrow> pyclass list \<Rightarrow> policy_layer \<Rightarrow> sstate \<Rightarrow> error option \<times> sstate" where
  "shard_instruction en bl pl st =
     (case slice_stage en bl pl st of
        Inl r \<Rightarrow> r
      | Inr (layer_attr, w', b', st') \<Rightarrow> replace_or_set en pl layer_attr w' b' st')"

text \<open>The two loops of \<^verbatim>\<open>shard_one_layer\<close>; the first exception ends them.\<close>

fun shard_policy_layers ::
  "env \<Rightarrow> pyclass list \<Rightarrow> policy_layer list \<Rightarrow> sstate \<Rightarrow> error option \<times> sstate" where
  "shard_policy_layers en bl [] st = (None, st)"
| "shard_policy_layers en bl (pl # pls) st =
     (case shard_instruction en bl pl st of
        (Some e, st') \<Rightarrow> (Some e, st')
      | (None, st') \<Rightarrow> shard_policy_layers en bl pls st')"

fun shard_param_funcs ::
  "env \<Rightarrow> pyclass list \<Rightarrow> policy_layer list list \<Rightarrow> sstate \<Rightarrow> error option \<times> sstate" where
  "shard_param_funcs en bl [] st = (None, st)"
| "shard_param_funcs en bl (f # fs) st =
     (case shard_policy_layers en bl f st of
        (Some e, st') \<Rightarrow> (Some e, st')
      | (None, st') \<Rightarrow> shard_param_funcs en bl fs st')"

definition shard_one_layer ::
  "env \<Rightarrow> node \<Rightarrow> policy_layer list list \<Rightarrow> pyclass list \<Rightarrow> bmap
     \<Rightarrow> error option \<times> node \<times> bmap" where
  "shard_one_layer en org pf bl bm =
     (case shard_param_funcs en bl pf
             \<lparr>org_layer = org, binding_map = bm,
              loc_gather_output = None, loc_replace_layer = None\<rparr> of
        (e, st) \<Rightarrow> (e, org_layer st, binding_map st))"

section \<open>\<^verbatim>\<open>reverse_replace_layer\<close> and \<^verbatim>\<open>replace_layer\<close>\<close>

text \<open>Lines 114--115: \<^verbatim>\<open>setattr_(child, k, v, ignore=True)\<close> for every override.\<close>

fun apply_attr_dict :: "node \<Rightarrow> (string \<times> val) list \<Rightarrow> error option \<times> node" where
  "apply_attr_dict child [] = (None, child)"
| "apply_attr_dict child ((k, v) # rest) =
     (case setattr_dot child k v True of
        Inl e \<Rightarrow> (Some e, child)
      | Inr child' \<Rightarrow> apply_attr_dict child' rest)"

text \<open>Lines 113--119: what is done to a child whose class is the rule's.\<close>

definition shard_matched ::
  "env \<Rightarrow> (string \<times> val) list \<Rightarrow> policy_layer list list \<Rightarrow> pyclass list
     \<Rightarrow> node \<Rightarrow> bmap \<Rightarrow> error option \<times> node \<times> bmap" where
  "shard_matched en ad pf bl child bm =
     (case apply_attr_dict child ad of
        (Some e, child') \<Rightarrow> (Some e, child', bm)
      | (None, child') \<Rightarrow> shard_one_layer en child' pf bl bm)"

text \<open>
  \<^verbatim>\<open>reverse_replace_layer\<close>: the loop over \<^verbatim>\<open>layer.named_children()\<close>, that is over the
  attributes that hold a module, in the order of the table. \<open>replace_children\<close> is the
  loop; a child is mutated in place, so the table is rebuilt around it.
\<close>

fun reverse_replace_layer ::
  "env \<Rightarrow> pyclass \<Rightarrow> (string \<times> val) list \<Rightarrow> policy_layer list list \<Rightarrow> pyclass list
     \<Rightarrow> node \<Rightarrow> bmap \<Rightarrow> error option \<times> node \<times> bmap"
and replace_children ::
  "env \<Rightarrow> pyclass \<Rightarrow> (string \<times> val) list \<Rightarrow> policy_layer list list \<Rightarrow> pyclass list
     \<Rightarrow> (string \<times> val) list \<Rightarrow> bmap \<Rightarrow> error option \<times> (string \<times> val) list \<times> bmap"
where
  "reverse_replace_layer en oc ad pf bl (Node c attrs) bm =
     (case replace_children en oc ad pf bl attrs bm of
        (e, attrs', bm') \<Rightarrow> (e, Node c attrs', bm'))"
| "replace_children en oc ad pf bl [] bm = (None, [], bm)"
| "replace_children en oc ad pf bl ((name, VObj child) # rest) bm =
     (case (if ncls child = oc then shard_matched en ad pf bl child bm
            else reverse_replace_layer en oc ad pf bl child bm) of
        (Some e, child', bm') \<Rightarrow> (Some e, (name, VObj child') # rest, bm')
      | (None, child', bm') \<Rightarrow>
          (case replace_children en oc ad pf bl rest bm' of
             (e, rest', bm'') \<Rightarrow> (e, (name, VObj child') # rest', bm'')))"
| "replace_children en oc ad pf bl ((name, v) # rest) bm =
     (case replace_children en oc ad pf bl rest bm of
        (e, rest', bm') \<Rightarrow> (e, (name, v) # rest', bm'))"

text \<open>\<^verbatim>\<open>replace_layer\<close>: one traversal per entry of the argument policy, in its order.\<close>

fun replace_layer_loop ::
  "env \<Rightarrow> (pyclass \<times> argument) list \<Rightarrow> node \<Rightarrow> bmap \<Rightarrow> error option \<times> node \<times> bmap" where
  "replace_layer_loop en [] model bm = (None, model, bm)"
| "replace_layer_loop en ((oc, arg) # rest) model bm =
     (case reverse_replace_layer en oc (attr_dict arg) (param_funcs arg)
             (binding_layers arg) model bm of
        (Some e, model', bm') \<Rightarrow> (Some e, model', bm')
      | (None, model', bm') \<Rightarrow> replace_layer_loop en rest model' bm')"

section \<open>\<^verbatim>\<open>inject_model\<close>\<close>

text \<open>
  A class object: its own \<^verbatim>\<open>__dict__\<close> (attribute name to definition, a definition
  being identified by a string) and the rest of its method resolution order. The class
  table gives the class object of every class.
\<close>

record class_obj =
  cdict :: "(string \<times> string) list"
  cbases :: "pyclass list"

type_synonym class_table = "pyclass \<Rightarrow> class_obj"

fun lookup_bases :: "class_table \<Rightarrow> pyclass list \<Rightarrow> string \<Rightarrow> string option" where
  "lookup_bases ct [] key = None"
| "lookup_bases ct (c # cs) key =
     (case map_of (cdict (ct c)) key of Some d \<Rightarrow> Some d | None \<Rightarrow> lookup_bases ct cs key)"

text \<open>\<^verbatim>\<open>getattr(cls, key)\<close>, \<^verbatim>\<open>hasattr(cls, key)\<close> and \<^verbatim>\<open>setattr(cls, key, d)\<close> on a class.\<close>

definition class_getattr :: "class_table \<Rightarrow> pyclass \<Rightarrow> string \<Rightarrow> string option" where
  "class_getattr ct c key = lookup_bases ct (c # cbases (ct c)) key"

definition class_hasattr :: "class_table \<Rightarrow> pyclass \<Rightarrow> string \<Rightarrow> bool" where
  "class_hasattr ct c key = (class_getattr ct c key \<noteq> None)"

definition class_setattr :: "class_table \<Rightarrow> pyclass \<Rightarrow> string \<Rightarrow> string \<Rightarrow> class_table" where
  "class_setattr ct c key d = ct(c := (ct c)\<lparr>cdict := AList.update key d (cdict (ct c))\<rparr>)"

text \<open>Lines 62--68: the loop over \<^verbatim>\<open>shard_model_cls.__dict__.keys()\<close>.\<close>

fun inject_keys ::
  "class_table \<Rightarrow> pyclass \<Rightarrow> pyclass \<Rightarrow> string list \<Rightarrow> error option \<times> class_table" where
  "inject_keys ct mc sc [] = (None, ct)"
| "inject_keys ct mc sc (key # keys) =
     (if class_hasattr ct mc key then
        (case class_getattr ct sc key of
           None \<Rightarrow> (Some AttributeError, ct)
         | Some d \<Rightarrow> inject_keys (class_setattr ct mc key d) mc sc keys)
      else inject_keys ct mc sc keys)"

text \<open>
  \<^verbatim>\<open>inject_model\<close>: \<open>ip\<close> is \<^verbatim>\<open>self.policy.inject_policy()\<close>, the pair of the origin class
  and the shard-aware class.
\<close>

definition inject_model ::
  "pyclass \<times> pyclass \<Rightarrow> node \<Rightarrow> class_table \<Rightarrow> error option \<times> class_table" where
  "inject_model ip model ct =
     (if ncls model = fst ip then
        inject_keys ct (ncls model) (snd ip) (map fst (cdict (ct (snd ip))))
      else (Some UnsupportedModelError, ct))"

text \<open>\<^verbatim>\<open>shard\<close>: inject, then replace.\<close>

record world =
  classes :: class_table
  the_model :: node
  the_binding_map :: bmap

definition shard ::
  "env \<Rightarrow> pyclass \<times> pyclass \<Rightarrow> (pyclass \<times> argument) list \<Rightarrow> world \<Rightarrow> error option \<times> world" where
  "shard en ip aps wd =
     (case inject_model ip (the_model wd) (classes wd) of
        (Some e, ct) \<Rightarrow> (Some e, wd\<lparr>classes := ct\<rparr>)
      | (None, ct) \<Rightarrow>
          (case replace_layer_loop en aps (the_model wd) (the_binding_map wd) of
             (e, model', bm') \<Rightarrow>
               (e, \<lparr>classes = ct, the_model = model', the_binding_map = bm'\<rparr>)))"

section \<open>The writes to the binding map\<close>









section \<open>The specification's reading of the pass\<close>

text \<open>
  The definitions of this section follow the words of the specification, not the
  source; the theorems compare them with the definitions above.
\<close>

text \<open>
  ``Stripping the final path component'': the components of the path without the last
  one, joined by dots again.
\<close>

fun join_dot :: "string list \<Rightarrow> string" where
  "join_dot [] = []"
| "join_dot [x] = x"
| "join_dot (x # y # ys) = x @ ''.'' @ join_dot (y # ys)"

definition strip_last_component :: "string \<Rightarrow> string" where
  "strip_last_component x = join_dot (butlast (split_dot x))"









fun nodes_of :: "node \<Rightarrow> node list"
and nodes_of_attrs :: "(string \<times> val) list \<Rightarrow> node list" where
  "nodes_of (Node c attrs) = Node c attrs # nodes_of_attrs attrs"
| "nodes_of_attrs [] = []"
| "nodes_of_attrs ((name, VObj child) # rest) = nodes_of child @ nodes_of_attrs rest"
| "nodes_of_attrs ((name, v) # rest) = nodes_of_attrs rest"


section \<open>A small model, for concrete runs\<close>

definition ex_Linear :: pyclass where "ex_Linear = PyClass ''Linear'' LinearKind"
definition ex_Embedding :: pyclass where "ex_Embedding = PyClass ''Embedding'' EmbeddingKind"
definition ex_Block :: pyclass where "ex_Block = PyClass ''Block'' OtherKind"
definition ex_Head :: pyclass where "ex_Head = PyClass ''Head'' OtherKind"
definition ex_Model :: pyclass where "ex_Model = PyClass ''Model'' OtherKind"
definition ex_Model_shard :: pyclass where "ex_Model_shard = PyClass ''Model_'' OtherKind"
definition ex_Row :: pyclass where "ex_Row = PyClass ''Linear1D_Row'' OtherKind"
definition ex_Col :: pyclass where "ex_Col = PyClass ''Linear1D_Col'' OtherKind"

text \<open>A dense layer with a 2 by 2 weight, inside a block; a block with an embedding;
  a head with a weight of its own; and the model that holds a block and the head.\<close>

definition ex_dense :: node where
  "ex_dense = Node ex_Linear
     [(''weight'', VParam (Tensor [2, 2] [1, 2, 3, 4])),
      (''bias'', VParam (Tensor [2] [5, 6])),
      (''in_features'', VInt 2),
      (''out_features'', VInt 2)]"

definition ex_block :: node where
  "ex_block = Node ex_Block [(''dense'', VObj ex_dense)]"

definition ex_wte :: node where
  "ex_wte = Node ex_Embedding
     [(''weight'', VParam (Tensor [4, 2] [1, 2, 3, 4, 5, 6, 7, 8])),
      (''padding_idx'', VInt 0)]"

definition ex_emb_block :: node where
  "ex_emb_block = Node ex_Block [(''wte'', VObj ex_wte)]"

definition ex_head :: node where
  "ex_head = Node ex_Head [(''weight'', VParam (Tensor [2, 2] [9, 9, 9, 9])), (''bias'', VNone)]"

definition ex_model :: node where
  "ex_model = Node ex_Model [(''block'', VObj ex_block), (''head'', VObj ex_head)]"

text \<open>The example slicer is rank 0 of 2 and cuts rows: it keeps the first half of the
  rows of the weight and passes the bias through.\<close>

definition first_rows :: "tensor \<Rightarrow> tensor" where
  "first_rows t =
     (case shape t of
        [] \<Rightarrow> t
      | r # sh \<Rightarrow> Tensor ((r div 2) # sh) (take (length (elems t) div 2) (elems t)))"

definition ex_slice :: "val \<Rightarrow> val \<Rightarrow> layer_cls \<Rightarrow> error + (val \<times> val)" where
  "ex_slice w b k =
     Inr (case w of VParam t \<Rightarrow> VTensor (first_rows t)
               | VTensor t \<Rightarrow> VTensor (first_rows t)
               | _ \<Rightarrow> w,
          b)"

text \<open>The example constructors keep their arguments as attributes of the new layer.\<close>

definition ex_construct :: "pyclass \<Rightarrow> ctor_args \<Rightarrow> node" where
  "ex_construct c a =
     (case a of
        LinearArgs x y hb g \<Rightarrow>
          Node c [(''in_features'', VInt (int x)),
                  (''out_features'', VInt (int y)),
                  (''weight'', VNone),
                  (''bias'', VNone),
                  (''use_bias'', VInt (if hb then 1 else 0)),
                  (''gather_output'',
                     (case g of None \<Rightarrow> VNone | Some f \<Rightarrow> VInt (if f then 1 else 0)))]
      | EmbeddingArgs n d pad \<Rightarrow>
          Node c [(''num_embeddings'', VInt (int n)),
                  (''embedding_dim'', VInt (int d)),
                  (''padding_idx'', pad),
                  (''weight'', VNone)])"

definition ex_env :: env where
  "ex_env = \<lparr>slice_weight_bias = ex_slice, construct = ex_construct, environ_RANK = Some ''0''\<rparr>"

definition ex_state :: "node \<Rightarrow> sstate" where
  "ex_state org = \<lparr>org_layer = org, binding_map = Map.empty,
                   loc_gather_output = None, loc_replace_layer = None\<rparr>"

text \<open>Instructions: slice the dense layer in place; the same with a row-wise, a
  column-wise replacement; an ignorable column instruction on a path the block does not
  have; a required one on that path; an embedding replacement.\<close>

definition ex_set :: policy_layer where
  "ex_set = \<lparr>weight = Some ''dense.weight'', bias = Some ''dense.bias'',
             replace_layer = None, ignore = False, lcls = Row_Layer, gather_output = False\<rparr>"

definition ex_row :: policy_layer where
  "ex_row = ex_set\<lparr>replace_layer := Some ex_Row\<rparr>"

definition ex_col :: policy_layer where
  "ex_col = ex_set\<lparr>replace_layer := Some ex_Col\<rparr>"

definition ex_skip :: policy_layer where
  "ex_skip = \<lparr>weight = Some ''crossattention.weight'', bias = None,
              replace_layer = None, ignore = True, lcls = Col_Layer, gather_output = True\<rparr>"

definition ex_required :: policy_layer where
  "ex_required = ex_skip\<lparr>ignore := False\<rparr>"

definition ex_emb :: policy_layer where
  "ex_emb = \<lparr>weight = Some ''wte.weight'', bias = None,
             replace_layer = Some ex_Embedding, ignore = False, lcls = Col_Layer,
             gather_output = True\<rparr>"

text \<open>The state after the example slicer's pair has been saved for the binding class
  \<open>ex_Head\<close>.\<close>

definition ex_sliced :: "sstate \<Rightarrow> sstate" where
  "ex_sliced st = st\<lparr>binding_map := save_binding [ex_Head]
       (VTensor (Tensor [1, 2] [1, 2]), VParam (Tensor [2] [5, 6])) (binding_map st)\<rparr>"

text \<open>The row-wise replacement without a bias; a policy with one rule, which binds the
  head's class to the block's shard; and the block and the model as that rule leaves
  them.\<close>

definition ex_row_nobias :: policy_layer where
  "ex_row_nobias = ex_row\<lparr>bias := None\<rparr>"





text \<open>A class table: the model's class and its shard-aware class.\<close>

definition ex_classes :: class_table where
  "ex_classes c =
     (if c = ex_Model then
        \<lparr>cdict = [(''forward'', ''Model.forward''), (''generate'', ''Model.generate'')],
         cbases = []\<rparr>
      else if c = ex_Model_shard then
        \<lparr>cdict = [(''forward'', ''Model_.forward''), (''all_gather'', ''Model_.all_gather'')],
         cbases = [ex_Model]\<rparr>
      else \<lparr>cdict = [], cbases = []\<rparr>)"

named_theorems ex_defs

lemmas [ex_defs] =
  ex_Linear_def ex_Embedding_def ex_Block_def ex_Head_def ex_Model_def ex_Model_shard_def
  ex_Row_def ex_Col_def ex_dense_def ex_block_def ex_wte_def ex_emb_block_def ex_head_def
  ex_model_def first_rows_def ex_slice_def ex_construct_def ex_env_def ex_state_def
  ex_set_def ex_row_def ex_col_def ex_skip_def ex_required_def ex_emb_def ex_classes_def

section \<open>Concrete runs of the small model\<close>

lemma ex_layer_attr: "layer_attr_of ''dense.weight'' = ''dense''"
  by (simp add: layer_attr_of_def rfind_dot_def slice_to_def)

lemma ex_missing: "\<not> hasattr_dot ex_block ''crossattention.weight''"
  by (simp add: hasattr_dot_def ex_defs)

lemma ex_reach_row:
  "slice_stage ex_env [ex_Head] ex_row (ex_state ex_block) =
     Inr (''dense'', VTensor (Tensor [1, 2] [1, 2]), VParam (Tensor [2] [5, 6]),
          ex_sliced (ex_state ex_block))"
  by (simp add: slice_stage_def slice_resolved_def resolve_attr_def hasattr_dot_def
      getattr_dot_def py_or_def print_shapes_def shape_of_def bind_gather_def ex_layer_attr
      ex_sliced_def ex_defs)

lemma ex_target:
  "getattr_dot (org_layer (ex_sliced (ex_state ex_block))) ''dense'' False = Inr (VObj ex_dense)"
  by (simp add: getattr_dot_def ex_sliced_def ex_defs)

lemma ex_row_outcome:
  "shard_instruction ex_env [ex_Head] ex_row (ex_state ex_block) =
     (Some TypeError,
      \<lparr>org_layer = Node ex_Block
          [(''dense'', VObj (ex_construct ex_Row (LinearArgs 2 1 True None)))],
       binding_map = [ex_Head \<mapsto> (VTensor (Tensor [1, 2] [1, 2]), VParam (Tensor [2] [5, 6]))],
       loc_gather_output = None,
       loc_replace_layer = Some (ex_construct ex_Row (LinearArgs 2 1 True None))\<rparr>)"
  apply (simp only: shard_instruction_def ex_reach_row sum.case prod.case)
  apply (simp add: replace_or_set_def isinstance_def shape_of_def shape_at_def new_linear_def size_at_def
      put_replace_layer_def setattr_dot_def as_node_def set_param_def install_param_def
      param_path_def getattr_dot_def ex_sliced_def ex_defs)
  done




lemma ex_reach_row_nobias:
  "slice_stage ex_env [ex_Head] ex_row_nobias (ex_state ex_block) =
     Inr (''dense'', VTensor (Tensor [1, 2] [1, 2]), VNone,
          (ex_state ex_block)\<lparr>binding_map :=
             save_binding [ex_Head] (VTensor (Tensor [1, 2] [1, 2]), VNone) Map.empty\<rparr>)"
  by (simp add: slice_stage_def slice_resolved_def resolve_attr_def hasattr_dot_def
      getattr_dot_def py_or_def print_shapes_def shape_of_def bind_gather_def ex_layer_attr
      ex_row_nobias_def ex_defs)

lemma ex_row_nobias_outcome:
  "shard_instruction ex_env [ex_Head] ex_row_nobias (ex_state ex_block) =
     (Some AssertionError,
      \<lparr>org_layer = Node ex_Block
          [(''dense'', VObj (ex_construct ex_Row (LinearArgs 2 1 False None)))],
       binding_map = [ex_Head \<mapsto> (VTensor (Tensor [1, 2] [1, 2]), VNone)],
       loc_gather_output = None,
       loc_replace_layer = Some (ex_construct ex_Row (LinearArgs 2 1 False None))\<rparr>)"
  apply (simp only: shard_instruction_def ex_reach_row_nobias sum.case prod.case)
  apply (simp add: replace_or_set_def isinstance_def shape_of_def shape_at_def new_linear_def size_at_def
      put_replace_layer_def setattr_dot_def as_node_def set_param_def install_param_def
      param_path_def getattr_dot_def ex_row_nobias_def ex_defs)
  done












section \<open>Attribute paths: reading after writing\<close>

lemma cons_first_not_Nil: "cons_first c ws \<noteq> []"
  by (cases ws) auto

lemma cons_first_append: "ws \<noteq> [] \<Longrightarrow> cons_first c (ws @ vs) = cons_first c ws @ vs"
  by (cases ws) auto

lemma split_dot_not_Nil: "split_dot s \<noteq> []"
  by (cases s) (auto simp: cons_first_not_Nil)

lemma split_dot_append: "split_dot (a @ CHR ''.'' # b) = split_dot a @ split_dot b"
  by (induction a) (auto simp: split_dot_not_Nil cons_first_append)

lemma split_dot_nodot: "CHR ''.'' \<notin> set a \<Longrightarrow> split_dot a = [a]"
  by (induction a) auto

lemma rfind_from_nodot: "CHR ''.'' \<notin> set a \<Longrightarrow> rfind_from a i f = f"
  by (induction a arbitrary: i f) auto

lemma rfind_from_append: "CHR ''.'' \<notin> set b \<Longrightarrow> rfind_from (a @ CHR ''.'' # b) i f = i + int (length a)"
  by (induction a arbitrary: i f) (auto simp: rfind_from_nodot)

lemma layer_attr_of_dotted: "CHR ''.'' \<notin> set b \<Longrightarrow> layer_attr_of (a @ CHR ''.'' # b) = a"
  by (simp add: layer_attr_of_def rfind_dot_def rfind_from_append slice_to_def)

lemma layer_attr_of_nodot: "CHR ''.'' \<notin> set a \<Longrightarrow> layer_attr_of a = butlast a"
  by (cases a) (auto simp: layer_attr_of_def rfind_dot_def rfind_from_nodot slice_to_def butlast_conv_take)

lemma getattr1_Some_obj: "getattr1 obj a = Some v \<Longrightarrow> \<exists>n. obj = VObj n"
  by (cases obj) auto

lemma setattr1_obj: "setattr1 (VObj n) a v = Inr (VObj (Node (ncls n) (AList.update a v (nattrs n))))"
  by (cases n) simp

lemma getattr1_obj: "getattr1 (VObj n) a = map_of (nattrs n) a"
  by (cases n) simp

lemma getattr1_setattr1:
  "setattr1 obj a v = Inr obj' \<Longrightarrow> getattr1 obj' k = (if k = a then Some v else getattr1 obj k)"
proof (cases obj)
  case (VObj n)
  assume "setattr1 obj a v = Inr obj'"
  with VObj show ?thesis by (cases n) (auto simp: update_conv')
qed auto

lemma set_path_is_obj: "set_path (VObj n) ps v ign = Inr obj' \<Longrightarrow> \<exists>n'. obj' = VObj n'"
proof (induction "VObj n" ps v ign arbitrary: n obj' rule: set_path.induct)
  case (1 v ign)
  then show ?case by auto
next
  case (2 a v ign)
  then show ?case by (auto simp: setattr1_obj)
next
  case (3 a b bs v ign)
  then show ?case
    by (auto simp: setattr1_obj split: option.splits sum.splits if_splits)
qed

lemma set_path_keeps_class:
  "set_path (VObj n) ps v ign = Inr (VObj n') \<Longrightarrow> ncls n' = ncls n"
proof (induction "VObj n" ps v ign arbitrary: n n' rule: set_path.induct)
  case (1 v ign)
  then show ?case by auto
next
  case (2 a v ign)
  then show ?case by (auto simp: setattr1_obj)
next
  case (3 a b bs v ign)
  then show ?case
    by (auto simp: setattr1_obj split: option.splits sum.splits if_splits)
qed

lemma resolve_set_same:
  "set_path obj ps v False = Inr obj' \<Longrightarrow> ps \<noteq> [] \<Longrightarrow> resolve_path obj' ps = Some v"
proof (induction obj ps v "False" arbitrary: obj' rule: set_path.induct)
  case (1 obj v)
  then show ?case by simp
next
  case (2 obj a v)
  then show ?case by (simp add: getattr1_setattr1)
next
  case (3 obj a b bs v)
  from "3.prems"(1) obtain child child' where
    c: "getattr1 obj a = Some child" and
    s: "set_path child (b # bs) v False = Inr child'" and
    o: "setattr1 obj a child' = Inr obj'"
    by (auto split: option.splits sum.splits)
  from "3.hyps"[OF c s] have "resolve_path child' (b # bs) = Some v" by simp
  moreover from o have "getattr1 obj' a = Some child'" by (simp add: getattr1_setattr1)
  ultimately show ?case by simp
qed

lemma resolve_set_other:
  "set_path obj ps v ign = Inr obj' \<Longrightarrow> \<not> prefix ps qs \<Longrightarrow> \<not> prefix qs ps
     \<Longrightarrow> resolve_path obj' qs = resolve_path obj qs"
proof (induction obj ps v ign arbitrary: obj' qs rule: set_path.induct)
  case (1 obj v ign)
  then show ?case by simp
next
  case (2 obj a v ign)
  then show ?case
    by (cases qs) (auto simp: getattr1_setattr1)
next
  case (3 obj a b bs v ign)
  show ?case
  proof (cases qs)
    case Nil
    with 3 show ?thesis by simp
  next
    case (Cons q qs')
    show ?thesis
    proof (cases "q = a")
      case False
      with 3 Cons show ?thesis
        by (auto simp: getattr1_setattr1 split: option.splits sum.splits if_splits)
    next
      case True
      with 3 Cons show ?thesis
        by (auto simp: getattr1_setattr1 split: option.splits sum.splits if_splits)
    qed
  qed
qed

lemma set_path_succeeds:
  "resolve_path obj ps \<noteq> None \<Longrightarrow> ps \<noteq> [] \<Longrightarrow> \<exists>obj'. set_path obj ps v ign = Inr obj'"
proof (induction obj ps v ign rule: set_path.induct)
  case (1 obj v ign)
  then show ?case by simp
next
  case (2 obj a v ign)
  then obtain n where "obj = VObj n"
    by (auto split: option.splits dest!: getattr1_Some_obj)
  then show ?case by (simp add: setattr1_obj)
next
  case (3 obj a b bs v ign)
  from "3.prems"(1) obtain child where c: "getattr1 obj a = Some child"
    and r: "resolve_path child (b # bs) \<noteq> None"
    by (auto split: option.splits)
  from "3.IH"[OF c r] obtain child' where s: "set_path child (b # bs) v ign = Inr child'"
    by auto
  from c obtain n where "obj = VObj n" by (auto dest!: getattr1_Some_obj)
  with c s show ?case by (simp add: setattr1_obj)
qed


section \<open>Writing through a dotted path\<close>

lemma set_path_ignore_irrelevant:
  "resolve_path obj ps \<noteq> None \<Longrightarrow> set_path obj ps v ign = set_path obj ps v False"
proof (induction obj ps v ign rule: set_path.induct)
  case (3 obj a b bs v ign)
  then show ?case by (auto split: option.splits)
qed simp_all

lemma getattr_dot_False: 
  "getattr_dot org la False = Inr v \<longleftrightarrow> resolve_path (VObj org) (split_dot la) = Some v"
  by (auto simp: getattr_dot_def split: option.splits)

lemma hasattr_dot_resolve: 
  "hasattr_dot org la \<longleftrightarrow> resolve_path (VObj org) (split_dot la) \<noteq> None"
  by (simp add: hasattr_dot_def)

lemma setattr_dot_resolving:
  assumes "resolve_path (VObj org) (split_dot la) \<noteq> None"
  shows "\<exists>org'. setattr_dot org la v ign = Inr org' \<and> ncls org' = ncls org
           \<and> resolve_path (VObj org') (split_dot la) = Some v
           \<and> (\<forall>qs. \<not> prefix (split_dot la) qs \<longrightarrow> \<not> prefix qs (split_dot la) \<longrightarrow>
                  resolve_path (VObj org') qs = resolve_path (VObj org) qs)"
proof -
  let ?ps = "split_dot la"
  have ne: "?ps \<noteq> []" by (rule split_dot_not_Nil)
  from set_path_succeeds[OF assms ne, of v False] obtain obj' where
    s: "set_path (VObj org) ?ps v False = Inr obj'" by auto
  from set_path_is_obj[OF s] obtain org' where o: "obj' = VObj org'" by auto
  have s': "set_path (VObj org) ?ps v ign = Inr (VObj org')"
    using s o set_path_ignore_irrelevant[OF assms, of v ign] by simp
  have "setattr_dot org la v ign = Inr org'"
    using s' by (simp add: setattr_dot_def as_node_def)
  moreover have "ncls org' = ncls org" using s o by (auto dest: set_path_keeps_class)
  moreover have "resolve_path (VObj org') ?ps = Some v"
    using resolve_set_same[OF s ne] o by simp
  moreover have "\<forall>qs. \<not> prefix ?ps qs \<longrightarrow> \<not> prefix qs ?ps \<longrightarrow>
                  resolve_path (VObj org') qs = resolve_path (VObj org) qs"
    using resolve_set_other[OF s] o by simp
  ultimately show ?thesis by blast
qed

lemma set_param_misbound:
  "shape_of w = Inr sz \<Longrightarrow>
     set_param rl w b VNone = (Some (if b = VNone then AssertionError else TypeError), rl)"
  by (cases w) (auto simp: set_param_def install_param_def param_path_def shape_of_def)

lemma put_replace_layer_result:
  assumes rl: "loc_replace_layer st = Some rl"
    and tgt: "resolve_path (VObj (org_layer st)) (split_dot la) \<noteq> None"
    and sh: "shape_of w = Inr sz"
  shows "\<exists>org'. put_replace_layer la ign w b st =
            (Some (if b = VNone then AssertionError else TypeError), st\<lparr>org_layer := org'\<rparr>)
          \<and> ncls org' = ncls (org_layer st)
          \<and> resolve_path (VObj org') (split_dot la) = Some (VObj rl)
          \<and> (\<forall>qs. \<not> prefix (split_dot la) qs \<longrightarrow> \<not> prefix qs (split_dot la) \<longrightarrow>
                  resolve_path (VObj org') qs = resolve_path (VObj (org_layer st)) qs)"
proof -
  from setattr_dot_resolving[OF tgt, of "VObj rl" ign] obtain org1 where
    s1: "setattr_dot (org_layer st) la (VObj rl) ign = Inr org1"
    and c1: "ncls org1 = ncls (org_layer st)"
    and r1: "resolve_path (VObj org1) (split_dot la) = Some (VObj rl)"
    and f1: "\<forall>qs. \<not> prefix (split_dot la) qs \<longrightarrow> \<not> prefix qs (split_dot la) \<longrightarrow>
                  resolve_path (VObj org1) qs = resolve_path (VObj (org_layer st)) qs"
    by blast
  have r1': "resolve_path (VObj org1) (split_dot la) \<noteq> None" using r1 by simp
  from setattr_dot_resolving[OF r1', of "VObj rl" ign] obtain org2 where
    s2: "setattr_dot org1 la (VObj rl) ign = Inr org2"
    and c2: "ncls org2 = ncls org1"
    and r2: "resolve_path (VObj org2) (split_dot la) = Some (VObj rl)"
    and f2: "\<forall>qs. \<not> prefix (split_dot la) qs \<longrightarrow> \<not> prefix qs (split_dot la) \<longrightarrow>
                  resolve_path (VObj org2) qs = resolve_path (VObj org1) qs"
    by blast
  have "st\<lparr>org_layer := org2, loc_replace_layer := Some rl\<rparr> = st\<lparr>org_layer := org2\<rparr>"
    using rl by simp
  then have "put_replace_layer la ign w b st =
      (Some (if b = VNone then AssertionError else TypeError), st\<lparr>org_layer := org2\<rparr>)"
    using rl s1 s2 set_param_misbound[OF sh, of rl b]
    by (simp add: put_replace_layer_def)
  with c1 c2 r2 f1 f2 show ?thesis by auto
qed

lemma bind_gather_simps [simp]:
  "org_layer (bind_gather pl st) = org_layer st"
  "binding_map (bind_gather pl st) = binding_map st"
  "loc_replace_layer (bind_gather pl st) = loc_replace_layer st"
  "loc_gather_output (bind_gather pl st) =
     (if lcls pl = Col_Layer then Some (gather_output pl) else loc_gather_output st)"
  by (simp_all add: bind_gather_def)

lemma resolve_attr_ignore:
  "resolve_attr org attr True =
     Inr (case attr of None \<Rightarrow> VNone
          | Some a \<Rightarrow> (case resolve_path (VObj org) (split_dot a) of None \<Rightarrow> VNone | Some v \<Rightarrow> v))"
  by (auto simp: resolve_attr_def hasattr_dot_def getattr_dot_def split: option.splits)

lemma resolve_attr_strict:
  "resolve_attr org attr False =
     (case attr of None \<Rightarrow> Inr VNone
      | Some a \<Rightarrow> (case resolve_path (VObj org) (split_dot a) of
                     None \<Rightarrow> Inl MissingAttributeError | Some v \<Rightarrow> Inr v))"
  by (auto simp: resolve_attr_def hasattr_dot_def getattr_dot_def split: option.splits)

text \<open>
  C6. An instruction declares a weight (or bias) path that the matched layer does not
  have. When \<open>ignore\<close> is unset, the instruction raises \<^verbatim>\<open>ValueError\<close> (the
  specification's MissingAttributeError), whatever is left of the loop, and the layer is
  untouched. When \<open>ignore\<close> is set, nothing is raised while resolving: the missing side
  is \<^verbatim>\<open>None\<close> and the instruction goes on (lines 165--178) with it.
\<close>

theorem missing_attribute_raises_unless_ignored:
  assumes decl: "weight pl = Some a \<or> bias pl = Some a"
    and missing: "\<not> hasattr_dot (org_layer st) a"
  shows "if ignore pl
         then \<exists>w b. slice_stage en bl pl st = slice_resolved en bl pl w b (bind_gather pl st)
                \<and> resolve_attr (org_layer st) (weight pl) True = Inr w
                \<and> resolve_attr (org_layer st) (bias pl) True = Inr b
                \<and> (if weight pl = Some a then w = VNone else True)
                \<and> (if bias pl = Some a then b = VNone else True)
         else shard_instruction en bl pl st = (Some MissingAttributeError, bind_gather pl st)
              \<and> shard_policy_layers en bl (pl # pls) st
                    = (Some MissingAttributeError, bind_gather pl st)"
proof (cases "ignore pl")
  case True
  from missing have m: "resolve_path (VObj (org_layer st)) (split_dot a) = None"
    by (simp add: hasattr_dot_def)
  show ?thesis using True m
    by (auto simp: slice_stage_def resolve_attr_ignore split: option.splits)
next
  case False
  from missing have m: "resolve_path (VObj (org_layer st)) (split_dot a) = None"
    by (simp add: hasattr_dot_def)
  from decl show ?thesis
  proof
    assume "weight pl = Some a"
    with False m show ?thesis
      by (simp add: shard_instruction_def slice_stage_def resolve_attr_strict)
  next
    assume "bias pl = Some a"
    with False m show ?thesis
      by (auto simp: shard_instruction_def slice_stage_def resolve_attr_strict
          split: option.splits)
  qed
qed

theorem missing_attribute_witness:
  "shard_instruction ex_env [] ex_required (ex_state ex_block)
     = (Some MissingAttributeError, bind_gather ex_required (ex_state ex_block))
   \<and> (\<exists>w b. slice_stage ex_env [] ex_skip (ex_state ex_block)
                = slice_resolved ex_env [] ex_skip w b (bind_gather ex_skip (ex_state ex_block))
              \<and> w = VNone)"
proof -
  have d1: "weight ex_required = Some ''crossattention.weight''
              \<or> bias ex_required = Some ''crossattention.weight''"
    by (simp add: ex_defs)
  have d2: "weight ex_skip = Some ''crossattention.weight''
              \<or> bias ex_skip = Some ''crossattention.weight''"
    by (simp add: ex_defs)
  have m: "\<not> hasattr_dot (org_layer (ex_state ex_block)) ''crossattention.weight''"
    using ex_missing by (simp add: ex_state_def)
  have i1: "\<not> ignore ex_required" and i2: "ignore ex_skip"
    and w2: "weight ex_skip = Some ''crossattention.weight''"
    by (simp_all add: ex_defs)
  from missing_attribute_raises_unless_ignored
         [OF d1 m, where en = ex_env and bl = "[]" and pls = "[]"] i1
  have a: "shard_instruction ex_env [] ex_required (ex_state ex_block)
     = (Some MissingAttributeError, bind_gather ex_required (ex_state ex_block))" by simp
  from missing_attribute_raises_unless_ignored
         [OF d2 m, where en = ex_env and bl = "[]" and pls = "[]"] i2 w2
  have b: "\<exists>w b. slice_stage ex_env [] ex_skip (ex_state ex_block)
                = slice_resolved ex_env [] ex_skip w b (bind_gather ex_skip (ex_state ex_block))
              \<and> w = VNone" by auto
  from a b show ?thesis by blast
qed

text \<open>
  C7. An instruction whose weight and bias both resolve to \<^verbatim>\<open>None\<close> while \<open>ignore\<close>
  is set is skipped: no exception, and the layer, the binding map and the local
  \<open>replace_layer\<close> are as before. Nothing is sliced: the outcome is the same for every
  environment \<open>en\<close>, also one whose slicer raises. (Only the local \<open>gather_output\<close> is
  assigned before the skip, when the instruction is a \<^verbatim>\<open>Col_Layer\<close>.)
\<close>

theorem ignorable_instruction_is_skipped:
  assumes "resolve_attr (org_layer st) (weight pl) (ignore pl) = Inr VNone"
    and "resolve_attr (org_layer st) (bias pl) (ignore pl) = Inr VNone"
    and "ignore pl"
  shows "shard_instruction en bl pl st = (None, bind_gather pl st)
         \<and> org_layer (bind_gather pl st) = org_layer st
         \<and> binding_map (bind_gather pl st) = binding_map st
         \<and> loc_replace_layer (bind_gather pl st) = loc_replace_layer st"
  using assms by (simp add: shard_instruction_def slice_stage_def slice_resolved_def)

theorem ignorable_instruction_witness:
  "shard_instruction ex_env [ex_Head] ex_skip (ex_state ex_block)
     = (None, bind_gather ex_skip (ex_state ex_block))
   \<and> org_layer (bind_gather ex_skip (ex_state ex_block)) = ex_block"
proof -
  have w: "resolve_attr (org_layer (ex_state ex_block)) (weight ex_skip) (ignore ex_skip)
             = Inr VNone"
    by (simp add: resolve_attr_def hasattr_dot_def ex_defs)
  have b: "resolve_attr (org_layer (ex_state ex_block)) (bias ex_skip) (ignore ex_skip)
             = Inr VNone"
    by (simp add: resolve_attr_def ex_defs)
  have i: "ignore ex_skip" by (simp add: ex_defs)
  from ignorable_instruction_is_skipped[OF w b i, of ex_env "[ex_Head]"]
  show ?thesis by (simp add: ex_state_def)
qed

section \<open>The local \<open>gather_output\<close>\<close>












lemma getattr_dot_resolves:
  "getattr_dot org la False = Inr v \<Longrightarrow> resolve_path (VObj org) (split_dot la) \<noteq> None"
  by (simp add: getattr_dot_False)



section \<open>Installing parameters and cached sizes\<close>


lemma set_path_owner:
  "resolve_path obj ps = Some (VObj n) \<Longrightarrow> \<exists>obj'. set_path obj (ps @ [k]) v ign = Inr obj'"
proof (induction ps arbitrary: obj)
  case Nil
  then show ?case by (simp add: setattr1_obj)
next
  case (Cons a ps)
  from Cons.prems obtain child where c: "getattr1 obj a = Some child"
    and r: "resolve_path child ps = Some (VObj n)"
    by (auto split: option.splits)
  from Cons.IH[OF r] obtain child' where s: "set_path child (ps @ [k]) v ign = Inr child'"
    by auto
  from c obtain m where o: "obj = VObj m" by (auto dest!: getattr1_Some_obj)
  obtain b bs where bb: "ps @ [k] = b # bs" by (cases "ps @ [k]") auto
  show ?case using c s o bb by (simp add: setattr1_obj)
qed

lemma setattr_dot_frame:
  assumes "setattr_dot org p v ign = Inr org'"
  shows "ncls org' = ncls org"
    and "\<not> prefix (split_dot p) qs \<Longrightarrow> \<not> prefix qs (split_dot p) \<Longrightarrow>
           resolve_path (VObj org') qs = resolve_path (VObj org) qs"
proof -
  from assms obtain obj' where s: "set_path (VObj org) (split_dot p) v ign = Inr obj'"
    and o: "org' = as_node obj' org"
    by (auto simp: setattr_dot_def split: sum.splits)
  from set_path_is_obj[OF s] o have o': "obj' = VObj org'" by (auto simp: as_node_def)
  show "ncls org' = ncls org" using s o' by (auto dest: set_path_keeps_class)
  show "\<not> prefix (split_dot p) qs \<Longrightarrow> \<not> prefix qs (split_dot p) \<Longrightarrow>
           resolve_path (VObj org') qs = resolve_path (VObj org) qs"
    using resolve_set_other[OF s] o' by simp
qed

lemma split_dot_attr: "CHR ''.'' \<notin> set nm \<Longrightarrow> split_dot (la @ CHR ''.'' # nm) = split_dot la @ [nm]"
  by (simp add: split_dot_append split_dot_nodot)

lemma param_path_comps:
  "CHR ''.'' \<notin> set nm \<Longrightarrow>
     \<exists>p. param_path (VStr la) nm = Inr p \<and> split_dot p = param_comps la nm"
  by (simp add: param_path_def param_comps_def split_dot_attr split_dot_nodot)

lemma param_comps_incomparable:
  "nm \<noteq> k \<Longrightarrow> nm \<noteq> [] \<Longrightarrow> \<not> prefix (param_comps la nm) (split_dot la @ [k])"
  "nm \<noteq> k \<Longrightarrow> nm \<noteq> [] \<Longrightarrow> \<not> prefix (split_dot la @ [k]) (param_comps la nm)"
  by (auto simp: param_comps_def prefix_def split_dot_not_Nil)


lemma install_param_frame:
  assumes i: "install_param l (VStr la) nm v = (e, l')"
    and nd: "CHR ''.'' \<notin> set nm" and ne: "nm \<noteq> k" "nm \<noteq> []"
  shows "resolve_path (VObj l') (split_dot la @ [k]) = resolve_path (VObj l) (split_dot la @ [k])"
proof (cases e)
  case (Some err)
  with i have "l' = l"
    by (auto simp: install_param_def split: sum.splits)
  then show ?thesis by simp
next
  case None
  from param_path_comps[OF nd, of la] obtain p where
    p: "param_path (VStr la) nm = Inr p" and sp: "split_dot p = param_comps la nm" by auto
  from None i p obtain pv where "setattr_dot l p pv False = Inr l'"
    by (auto simp: install_param_def split: sum.splits)
  from setattr_dot_frame(2)[OF this, of "split_dot la @ [k]"]
  show ?thesis
    unfolding sp using param_comps_incomparable[OF ne, of la] by blast
qed

lemma set_size_step:
  assumes nd: "CHR ''.'' \<notin> set nm" and i: "i < length sz"
  shows "\<exists>l1. set_layer_size_loop l la sz ((i, nm) # rest) = set_layer_size_loop l1 la sz rest
           \<and> ncls l1 = ncls l
           \<and> resolve_path (VObj l1) (split_dot la @ [nm]) =
               (if resolve_path (VObj l) (split_dot la @ [nm]) \<noteq> None
                then Some (VInt (int (sz ! i))) else None)
           \<and> (\<forall>k. k \<noteq> nm \<longrightarrow> resolve_path (VObj l1) (split_dot la @ [k]) =
                                  resolve_path (VObj l) (split_dot la @ [k]))"
proof (cases "resolve_path (VObj l) (split_dot la @ [nm]) = None")
  case True
  then show ?thesis using nd
    by (auto simp: hasattr_dot_def split_dot_attr)
next
  case False
  let ?p = "la @ CHR ''.'' # nm"
  have sp: "split_dot ?p = split_dot la @ [nm]" using nd by (rule split_dot_attr)
  from False have r: "resolve_path (VObj l) (split_dot ?p) \<noteq> None" by (simp add: sp)
  from setattr_dot_resolving[OF r, of "VInt (int (sz ! i))" False] obtain l1 where
    s: "setattr_dot l ?p (VInt (int (sz ! i))) False = Inr l1"
    and c: "ncls l1 = ncls l"
    and g: "resolve_path (VObj l1) (split_dot ?p) = Some (VInt (int (sz ! i)))"
    and f: "\<forall>qs. \<not> prefix (split_dot ?p) qs \<longrightarrow> \<not> prefix qs (split_dot ?p) \<longrightarrow>
                resolve_path (VObj l1) qs = resolve_path (VObj l) qs"
    by blast
  have "set_layer_size_loop l la sz ((i, nm) # rest) = set_layer_size_loop l1 la sz rest"
    using r s i by (simp add: hasattr_dot_def size_at_def)
  moreover have "\<forall>k. k \<noteq> nm \<longrightarrow> resolve_path (VObj l1) (split_dot la @ [k]) =
                                  resolve_path (VObj l) (split_dot la @ [k])"
    using f unfolding sp by (auto simp: prefix_def)
  ultimately show ?thesis using c g False unfolding sp by auto
qed

lemma set_layer_size_result:
  "\<exists>l'. set_layer_size l la (r # c # rest) = (None, l')
     \<and> ncls l' = ncls l
     \<and> resolve_path (VObj l') (split_dot la @ [''out_features'']) =
         (if resolve_path (VObj l) (split_dot la @ [''out_features'']) \<noteq> None
          then Some (VInt (int r)) else None)
     \<and> resolve_path (VObj l') (split_dot la @ [''in_features'']) =
         (if resolve_path (VObj l) (split_dot la @ [''in_features'']) \<noteq> None
          then Some (VInt (int c)) else None)
     \<and> (\<forall>k. k \<noteq> ''out_features'' \<longrightarrow> k \<noteq> ''in_features'' \<longrightarrow>
            resolve_path (VObj l') (split_dot la @ [k]) = resolve_path (VObj l) (split_dot la @ [k]))"
proof -
  let ?sz = "r # c # rest"
  from set_size_step[of "''out_features''" 0 ?sz l la "[(1, ''in_features'')]"]
  obtain l1 where
    s1: "set_layer_size_loop l la ?sz [(0, ''out_features''), (1, ''in_features'')] =
           set_layer_size_loop l1 la ?sz [(1, ''in_features'')]"
    and c1: "ncls l1 = ncls l"
    and g1: "resolve_path (VObj l1) (split_dot la @ [''out_features'']) =
               (if resolve_path (VObj l) (split_dot la @ [''out_features'']) \<noteq> None
                then Some (VInt (int r)) else None)"
    and f1: "\<forall>k. k \<noteq> ''out_features'' \<longrightarrow> resolve_path (VObj l1) (split_dot la @ [k]) =
                                  resolve_path (VObj l) (split_dot la @ [k])"
    by auto
  from set_size_step[of "''in_features''" 1 ?sz l1 la "[]"]
  obtain l2 where
    s2: "set_layer_size_loop l1 la ?sz [(1, ''in_features'')] = set_layer_size_loop l2 la ?sz []"
    and c2: "ncls l2 = ncls l1"
    and g2: "resolve_path (VObj l2) (split_dot la @ [''in_features'']) =
               (if resolve_path (VObj l1) (split_dot la @ [''in_features'']) \<noteq> None
                then Some (VInt (int c)) else None)"
    and f2: "\<forall>k. k \<noteq> ''in_features'' \<longrightarrow> resolve_path (VObj l2) (split_dot la @ [k]) =
                                  resolve_path (VObj l1) (split_dot la @ [k])"
    by auto
  have "set_layer_size l la ?sz = set_layer_size_loop l2 la ?sz []"
    unfolding set_layer_size_def s1 s2 ..
  then have "set_layer_size l la ?sz = (None, l2)" by simp
  moreover have "resolve_path (VObj l2) (split_dot la @ [''out_features'']) =
         (if resolve_path (VObj l) (split_dot la @ [''out_features'']) \<noteq> None
          then Some (VInt (int r)) else None)"
    using f2 g1 by simp
  moreover have "resolve_path (VObj l2) (split_dot la @ [''in_features'']) =
         (if resolve_path (VObj l) (split_dot la @ [''in_features'']) \<noteq> None
          then Some (VInt (int c)) else None)"
    using g2 f1 by simp
  ultimately show ?thesis using c1 c2 f1 f2 by auto
qed

lemma nn_Parameter_tensor: "shape_of v = Inr sz \<Longrightarrow> \<exists>t. nn_Parameter v = Inr (VParam t) \<and> shape t = sz"
  by (cases v) (auto simp: shape_of_def nn_Parameter_def)







section \<open>Replacing a layer\<close>

lemma getattr_dot_ignore_total: "\<exists>v. getattr_dot org p True = Inr v"
  by (cases "resolve_path (VObj org) (split_dot p)") (simp_all add: getattr_dot_def)

lemma replace_with_layer:
  assumes tgt: "getattr_dot (org_layer st) la False = Inr t"
    and sh: "shape_of w = Inr sz"
  shows "\<exists>org'. put_replace_layer la ign w b (st\<lparr>loc_replace_layer := Some rl\<rparr>) =
            (Some (if b = VNone then AssertionError else TypeError),
             st\<lparr>loc_replace_layer := Some rl, org_layer := org'\<rparr>)
          \<and> getattr_dot org' la False = Inr (VObj rl)"
proof -
  have "resolve_path (VObj (org_layer (st\<lparr>loc_replace_layer := Some rl\<rparr>))) (split_dot la) \<noteq> None"
    using getattr_dot_resolves[OF tgt] by simp
  from put_replace_layer_result[OF _ this sh, where rl = rl and ign = ign and b = b]
  show ?thesis by (auto simp: getattr_dot_False)
qed

text \<open>
  C4, as the source has it. An instruction with a replacement class reaches line 181
  with a sliced weight of shape \<open>(r, c, \<dots>)\<close>, and \<open>layer_attr\<close> resolves on the layer.
  For a dense linear layer, a \<^verbatim>\<open>Linear1D_Row\<close> replacement is constructed with the sizes
  \<open>(c, r)\<close>, that is \<^verbatim>\<open>(weight.shape[1], weight.shape[0])\<close>, and a \<^verbatim>\<open>Linear1D_Col\<close>
  replacement with \<open>(r, c)\<close> and the local \<open>gather_output\<close>; both with \<^verbatim>\<open>bias\<close> enabled
  iff the sliced bias is not \<^verbatim>\<open>None\<close>. A class of another name constructs nothing and
  installs whatever the local \<open>replace_layer\<close> holds. For an embedding layer the
  replacement is constructed with \<open>(r, c, padding_idx)\<close>. Any other layer raises
  \<^verbatim>\<open>NotImplementedError\<close> (the specification's UnsupportedLayerError). The constructed
  layer is the one found at \<open>layer_attr\<close> afterwards.
\<close>

theorem replacement_constructor_arguments:
  assumes reach: "slice_stage en bl pl st = Inr (la, w', b', st2)"
    and rep: "replace_layer pl = Some rcls"
    and tgt: "getattr_dot (org_layer st2) la False = Inr t"
    and sh: "shape_of w' = Inr (r # c # rest)"
  shows
    "if isinstance t LinearKind then
       (if cname rcls = ''Linear1D_Row'' then
          getattr_dot (org_layer (snd (shard_instruction en bl pl st))) la False =
            Inr (VObj (construct en rcls (LinearArgs c r (b' \<noteq> VNone) None)))
        else if cname rcls = ''Linear1D_Col'' then
          (case loc_gather_output st2 of
             None \<Rightarrow> shard_instruction en bl pl st = (Some UnboundLocalError, st2)
           | Some g \<Rightarrow>
               getattr_dot (org_layer (snd (shard_instruction en bl pl st))) la False =
                 Inr (VObj (construct en rcls (LinearArgs r c (b' \<noteq> VNone) (Some g)))))
        else
          (case loc_replace_layer st2 of
             None \<Rightarrow> shard_instruction en bl pl st = (Some UnboundLocalError, st2)
           | Some rl \<Rightarrow>
               getattr_dot (org_layer (snd (shard_instruction en bl pl st))) la False =
                 Inr (VObj rl)))
     else if isinstance t EmbeddingKind then
       (\<exists>pad. getattr_dot (org_layer st2) (la @ ''.padding_idx'') True = Inr pad \<and>
          getattr_dot (org_layer (snd (shard_instruction en bl pl st))) la False =
            Inr (VObj (construct en rcls (EmbeddingArgs r c pad))))
     else shard_instruction en bl pl st = (Some UnsupportedLayerError, st2)"
proof -
  have si: "shard_instruction en bl pl st = replace_or_set en pl la w' b' st2"
    using reach by (simp add: shard_instruction_def)
  note rw = replace_with_layer[OF tgt sh, where ign = "ignore pl" and b = b']
  show ?thesis
  proof (cases "isinstance t LinearKind")
    case lin: True
    show ?thesis
    proof (cases "cname rcls = ''Linear1D_Row''")
      case True
      let ?rl = "construct en rcls (LinearArgs c r (b' \<noteq> VNone) None)"
      have "new_linear en rcls w' b' st2 = (None, st2\<lparr>loc_replace_layer := Some ?rl\<rparr>)"
        using True by (simp add: new_linear_def shape_at_def size_at_def sh)
      with rw[where rl = ?rl] rep tgt sh lin True show ?thesis
        by (auto simp: si replace_or_set_def)
    next
      case notrow: False
      show ?thesis
      proof (cases "cname rcls = ''Linear1D_Col''")
        case True
        show ?thesis
        proof (cases "loc_gather_output st2")
          case None
          with rep tgt sh lin notrow True show ?thesis
            by (simp add: si replace_or_set_def new_linear_def shape_at_def size_at_def)
        next
          case (Some g)
          let ?rl = "construct en rcls (LinearArgs r c (b' \<noteq> VNone) (Some g))"
          have "new_linear en rcls w' b' st2 = (None, st2\<lparr>loc_replace_layer := Some ?rl\<rparr>)"
            using True notrow Some by (simp add: new_linear_def shape_at_def size_at_def sh)
          with rw[where rl = ?rl] rep tgt sh lin True notrow Some show ?thesis
            by (auto simp: si replace_or_set_def)
        qed
      next
        case False
        have nl: "new_linear en rcls w' b' st2 = (None, st2)"
          using False notrow by (simp add: new_linear_def)
        show ?thesis
        proof (cases "loc_replace_layer st2")
          case None
          with nl rep tgt sh lin notrow False show ?thesis
            by (simp add: si replace_or_set_def put_replace_layer_def)
        next
          case (Some rl)
          then have "st2\<lparr>loc_replace_layer := Some rl\<rparr> = st2" by simp
          with rw[where rl = rl] nl rep tgt sh lin notrow False Some show ?thesis
            by (auto simp: si replace_or_set_def)
        qed
      qed
    qed
  next
    case notlin: False
    show ?thesis
    proof (cases "isinstance t EmbeddingKind")
      case True
      obtain pad where pad: "getattr_dot (org_layer st2) (la @ ''.padding_idx'') True = Inr pad"
        using getattr_dot_ignore_total by blast
      let ?rl = "construct en rcls (EmbeddingArgs r c pad)"
      have "new_embedding en rcls w' la st2 = (None, st2\<lparr>loc_replace_layer := Some ?rl\<rparr>)"
        using pad by (simp add: new_embedding_def shape_at_def size_at_def sh)
      with rw[where rl = ?rl] rep tgt sh notlin True pad show ?thesis
        by (auto simp: si replace_or_set_def)
    next
      case False
      with rep tgt notlin show ?thesis
        by (simp add: si replace_or_set_def)
    qed
  qed
qed

theorem replacement_constructor_witness:
  "getattr_dot (org_layer (snd (shard_instruction ex_env [ex_Head] ex_row (ex_state ex_block))))
     ''dense'' False
   = Inr (VObj (ex_construct ex_Row (LinearArgs 2 1 True None)))"
proof -
  have rep: "replace_layer ex_row = Some ex_Row" by (simp add: ex_defs)
  have sh: "shape_of (VTensor (Tensor [1, 2] [1, 2])) = Inr (1 # 2 # [])"
    by (simp add: shape_of_def)
  have k: "isinstance (VObj ex_dense) LinearKind" "cname ex_Row = ''Linear1D_Row''"
    by (simp_all add: isinstance_def ex_defs)
  from replacement_constructor_arguments[OF ex_reach_row rep ex_target sh] k
  show ?thesis by (simp add: ex_env_def)
qed

text \<open>
  C4, as the claim states it, fails: the sliced weight of the example has shape
  \<open>(1, 2)\<close>, and the row-wise replacement is not the one constructed with the sizes
  \<open>(1, 2)\<close>.
\<close>

theorem row_replacement_sizes_counterexample:
  "getattr_dot (org_layer (snd (shard_instruction ex_env [ex_Head] ex_row (ex_state ex_block))))
     ''dense'' False
   \<noteq> Inr (VObj (construct ex_env ex_Row (LinearArgs 1 2 True None)))"
  apply (simp only: ex_row_outcome)
  apply (simp add: getattr_dot_def ex_defs)
  done

text \<open>Without a replacement class (line 198) the sliced weight and bias become
  parameters of the module at \<open>layer_attr\<close>, which keeps its class.\<close>

lemma set_path_owner_class:
  "set_path obj (ps @ [k]) v ign = Inr obj' \<Longrightarrow> resolve_path obj ps = Some (VObj n)
     \<Longrightarrow> \<exists>n'. resolve_path obj' ps = Some (VObj n') \<and> ncls n' = ncls n"
proof (induction ps arbitrary: obj obj')
  case Nil
  then show ?case by (auto simp: setattr1_obj)
next
  case (Cons a ps)
  from Cons.prems(2) obtain child where c: "getattr1 obj a = Some child"
    and r: "resolve_path child ps = Some (VObj n)"
    by (auto split: option.splits)
  obtain b bs where bb: "ps @ [k] = b # bs" by (cases "ps @ [k]") auto
  from Cons.prems(1) c bb obtain child' where
    s: "set_path child (ps @ [k]) v ign = Inr child'" and o: "setattr1 obj a child' = Inr obj'"
    by (auto split: sum.splits)
  from Cons.IH[OF s r] obtain n' where "resolve_path child' ps = Some (VObj n')" "ncls n' = ncls n"
    by auto
  moreover from o have "getattr1 obj' a = Some child'" by (simp add: getattr1_setattr1)
  ultimately show ?case by auto
qed

lemma owner_keptI:
  "resolve_path (VObj l) (split_dot la) = Some (VObj n') \<Longrightarrow> ncls n' = ncls n \<Longrightarrow> owner_kept la n l"
  by (simp add: owner_kept_def)

lemma owner_keptE:
  assumes "owner_kept la n l"
  obtains n' where "resolve_path (VObj l) (split_dot la) = Some (VObj n')" "ncls n' = ncls n"
  using assms by (auto simp: owner_kept_def split: option.splits val.splits)

lemma setattr_dot_owner:
  assumes s: "setattr_dot l p v ign = Inr l'"
    and p: "split_dot p = split_dot la @ [k]"
    and o: "owner_kept la n l"
  shows "owner_kept la n l'"
proof -
  from o obtain n0 where r: "resolve_path (VObj l) (split_dot la) = Some (VObj n0)"
    and c: "ncls n0 = ncls n" by (rule owner_keptE)
  from s obtain obj' where sp: "set_path (VObj l) (split_dot la @ [k]) v ign = Inr obj'"
    and l': "l' = as_node obj' l"
    by (auto simp: setattr_dot_def p split: sum.splits)
  from set_path_is_obj[OF sp] l' have obj': "obj' = VObj l'" by (auto simp: as_node_def)
  from set_path_owner_class[OF sp r] obtain n' where
    "resolve_path obj' (split_dot la) = Some (VObj n')" "ncls n' = ncls n0" by auto
  with obj' c show ?thesis by (auto intro: owner_keptI)
qed

lemma set_layer_size_loop_owner:
  assumes "\<forall>x. x \<in> set xs \<longrightarrow> CHR ''.'' \<notin> set (snd x)"
    and "owner_kept la n l"
    and "set_layer_size_loop l la sz xs = (e, l')"
  shows "owner_kept la n l'"
  using assms
proof (induction xs arbitrary: l)
  case Nil
  then show ?case by simp
next
  case (Cons x xs)
  obtain i attr where x: "x = (i, attr)" by (cases x) auto
  have nd: "CHR ''.'' \<notin> set attr" using Cons.prems(1) x by auto
  have rest: "\<forall>x. x \<in> set xs \<longrightarrow> CHR ''.'' \<notin> set (snd x)" using Cons.prems(1) by auto
  have sp: "split_dot (la @ ''.'' @ attr) = split_dot la @ [attr]"
    using split_dot_attr[OF nd, of la] by simp
  show ?case
  proof (cases "hasattr_dot l (la @ ''.'' @ attr)")
    case False
    with Cons.prems(3) x have "set_layer_size_loop l la sz xs = (e, l')" by simp
    from Cons.IH[OF rest Cons.prems(2) this] show ?thesis .
  next
    case True
    show ?thesis
    proof (cases "size_at sz i")
      case (Inl err)
      with True Cons.prems(3) x have "l' = l" by simp
      with Cons.prems(2) show ?thesis by simp
    next
      case (Inr m)
      show ?thesis
      proof (cases "setattr_dot l (la @ ''.'' @ attr) (VInt (int m)) False")
        case (Inl err)
        with True Inr Cons.prems(3) x have "l' = l" by simp
        with Cons.prems(2) show ?thesis by simp
      next
        case r: (Inr l1)
        from setattr_dot_owner[OF r sp Cons.prems(2)] have o1: "owner_kept la n l1" .
        from True Inr r Cons.prems(3) x have "set_layer_size_loop l1 la sz xs = (e, l')" by simp
        from Cons.IH[OF rest o1 this] show ?thesis .
      qed
    qed
  qed
qed

lemma install_param_owner:
  assumes i: "install_param l (VStr la) nm v = (e, l')"
    and nd: "CHR ''.'' \<notin> set nm" and la: "la \<noteq> []"
    and o: "owner_kept la n l"
  shows "owner_kept la n l'"
proof (cases e)
  case (Some err)
  with i have "l' = l" by (auto simp: install_param_def split: sum.splits)
  with o show ?thesis by simp
next
  case None
  from param_path_comps[OF nd, of la] obtain p where
    p: "param_path (VStr la) nm = Inr p" and sp: "split_dot p = param_comps la nm" by auto
  from None i p obtain pv where s: "setattr_dot l p pv False = Inr l'"
    by (auto simp: install_param_def split: sum.splits)
  have "split_dot p = split_dot la @ [nm]" using sp la by (simp add: param_comps_def)
  from setattr_dot_owner[OF s this o] show ?thesis .
qed

lemma install_param_in_owner:
  assumes sh: "shape_of v = Inr sz" and nd: "CHR ''.'' \<notin> set nm" and la: "la \<noteq> []"
    and o: "owner_kept la n l"
  shows "\<exists>l' t. install_param l (VStr la) nm v = (None, l') \<and> nn_Parameter v = Inr (VParam t)
            \<and> resolve_path (VObj l') (split_dot la @ [nm]) = Some (VParam t)"
proof -
  from o obtain n0 where r: "resolve_path (VObj l) (split_dot la) = Some (VObj n0)"
    by (rule owner_keptE)
  from nn_Parameter_tensor[OF sh] obtain t where t: "nn_Parameter v = Inr (VParam t)" by auto
  from param_path_comps[OF nd, of la] obtain p where
    p: "param_path (VStr la) nm = Inr p" and sp: "split_dot p = param_comps la nm" by auto
  have pc: "param_comps la nm = split_dot la @ [nm]" using la by (simp add: param_comps_def)
  from set_path_owner[OF r, of nm "VParam t" False] obtain obj' where
    s: "set_path (VObj l) (split_dot la @ [nm]) (VParam t) False = Inr obj'" by auto
  from set_path_is_obj[OF s] obtain l' where o': "obj' = VObj l'" by auto
  have "install_param l (VStr la) nm v = (None, l')"
    using p t s o' sp pc by (simp add: install_param_def setattr_dot_def as_node_def)
  moreover have "resolve_path (VObj l') (split_dot la @ [nm]) = Some (VParam t)"
    using resolve_set_same[OF s] o' by simp
  ultimately show ?thesis using t by auto
qed

lemma set_param_installs:
  assumes sh: "shape_of w = Inr (r # c # rest)"
    and bs: "b = VNone \<or> (\<exists>sz. shape_of b = Inr sz)"
    and la: "la \<noteq> []"
    and tgt: "getattr_dot l la False = Inr (VObj n)"
  shows "\<exists>l' n' t. set_param l (VStr la) w b = (None, l')
           \<and> getattr_dot l' la False = Inr (VObj n') \<and> ncls n' = ncls n
           \<and> nn_Parameter w = Inr (VParam t)
           \<and> getattr_dot l' (la @ ''.weight'') False = Inr (VParam t)
           \<and> (if b = VNone
               then getattr_dot l' (la @ ''.bias'') True = getattr_dot l (la @ ''.bias'') True
               else \<exists>u. nn_Parameter b = Inr (VParam u)
                      \<and> getattr_dot l' (la @ ''.bias'') False = Inr (VParam u))"
proof -
  let ?P = "split_dot la"
  have o0: "owner_kept la n l"
    using tgt by (auto simp: getattr_dot_False intro: owner_keptI)
  have wn: "w \<noteq> VNone" using sh by (auto simp: shape_of_def)
  from install_param_in_owner[OF sh _ la o0, of "''weight''"] obtain l1 t where
    i1: "install_param l (VStr la) ''weight'' w = (None, l1)"
    and t: "nn_Parameter w = Inr (VParam t)"
    and w1: "resolve_path (VObj l1) (?P @ [''weight'']) = Some (VParam t)"
    by auto
  have o1: "owner_kept la n l1" using install_param_owner[OF i1 _ la o0] by simp
  have fb1: "resolve_path (VObj l1) (?P @ [''bias'']) = resolve_path (VObj l) (?P @ [''bias''])"
    using install_param_frame[OF i1, of "''bias''"] by simp
  from set_layer_size_result[of l1 la r c rest] obtain l2 where
    s2: "set_layer_size l1 la (r # c # rest) = (None, l2)"
    and f2: "\<forall>k. k \<noteq> ''out_features'' \<longrightarrow> k \<noteq> ''in_features'' \<longrightarrow>
            resolve_path (VObj l2) (?P @ [k]) = resolve_path (VObj l1) (?P @ [k])"
    by blast
  have o2: "owner_kept la n l2"
    using set_layer_size_loop_owner[OF _ o1 s2[unfolded set_layer_size_def]] by simp
  have w2: "resolve_path (VObj l2) (?P @ [''weight'']) = Some (VParam t)"
    using f2 w1 by simp
  have fb2: "resolve_path (VObj l2) (?P @ [''bias'']) = resolve_path (VObj l) (?P @ [''bias''])"
    using f2 fb1 by simp
  have sw: "split_dot (la @ ''.weight'') = ?P @ [''weight'']"
    using split_dot_attr[of "''weight''" la] by simp
  have sb: "split_dot (la @ ''.bias'') = ?P @ [''bias'']"
    using split_dot_attr[of "''bias''" la] by simp
  show ?thesis
  proof (cases "b = VNone")
    case True
    have "set_param l (VStr la) w b = (None, l2)"
      using wn i1 sh s2 True by (simp add: set_param_def)
    moreover from o2 obtain n2 where "resolve_path (VObj l2) ?P = Some (VObj n2)" "ncls n2 = ncls n"
      by (rule owner_keptE)
    ultimately show ?thesis using t w2 fb2 True
      by (auto simp: getattr_dot_False getattr_dot_def sw sb)
  next
    case False
    with bs obtain sz where shb: "shape_of b = Inr sz" by auto
    from install_param_in_owner[OF shb _ la o2, of "''bias''"] obtain l3 u where
      i3: "install_param l2 (VStr la) ''bias'' b = (None, l3)"
      and u: "nn_Parameter b = Inr (VParam u)"
      and b3: "resolve_path (VObj l3) (?P @ [''bias'']) = Some (VParam u)"
      by auto
    have o3: "owner_kept la n l3" using install_param_owner[OF i3 _ la o2] by simp
    have w3: "resolve_path (VObj l3) (?P @ [''weight'']) = Some (VParam t)"
      using install_param_frame[OF i3, of "''weight''"] w2 by simp
    have "set_param l (VStr la) w b = (None, l3)"
      using wn i1 sh s2 i3 False by (simp add: set_param_def)
    moreover from o3 obtain n3 where "resolve_path (VObj l3) ?P = Some (VObj n3)" "ncls n3 = ncls n"
      by (rule owner_keptE)
    ultimately show ?thesis using t u w3 b3 False
      by (auto simp: getattr_dot_False sw sb)
  qed
qed

lemma slice_stage_bias_shape:
  "slice_stage en bl pl st = Inr (la, w', b', st2) \<Longrightarrow> b' = VNone \<or> (\<exists>sz. shape_of b' = Inr sz)"
  by (auto simp: slice_stage_def slice_resolved_def print_shapes_def
      split: sum.splits option.splits if_splits)

lemma no_replacement_installs:
  assumes reach: "slice_stage en bl pl st = Inr (la, w', b', st2)"
    and norep: "replace_layer pl = None"
    and sh: "shape_of w' = Inr (r # c # rest)"
    and la: "la \<noteq> []"
    and tgt: "getattr_dot (org_layer st2) la False = Inr (VObj n)"
  shows "\<exists>org' n' t. shard_instruction en bl pl st = (None, st2\<lparr>org_layer := org'\<rparr>)
           \<and> getattr_dot org' la False = Inr (VObj n') \<and> ncls n' = ncls n
           \<and> nn_Parameter w' = Inr (VParam t)
           \<and> getattr_dot org' (la @ ''.weight'') False = Inr (VParam t)
           \<and> (if b' = VNone
               then getattr_dot org' (la @ ''.bias'') True
                      = getattr_dot (org_layer st2) (la @ ''.bias'') True
               else \<exists>u. nn_Parameter b' = Inr (VParam u)
                      \<and> getattr_dot org' (la @ ''.bias'') False = Inr (VParam u))"
proof -
  have si: "shard_instruction en bl pl st = replace_or_set en pl la w' b' st2"
    using reach by (simp add: shard_instruction_def)
  from set_param_installs[OF sh slice_stage_bias_shape[OF reach] la tgt]
  obtain l' n' t where
    "set_param (org_layer st2) (VStr la) w' b' = (None, l')"
    "getattr_dot l' la False = Inr (VObj n')" "ncls n' = ncls n"
    "nn_Parameter w' = Inr (VParam t)"
    "getattr_dot l' (la @ ''.weight'') False = Inr (VParam t)"
    "if b' = VNone
     then getattr_dot l' (la @ ''.bias'') True = getattr_dot (org_layer st2) (la @ ''.bias'') True
     else \<exists>u. nn_Parameter b' = Inr (VParam u)
            \<and> getattr_dot l' (la @ ''.bias'') False = Inr (VParam u)"
    by blast
  then show ?thesis
    unfolding si using norep by (auto simp: replace_or_set_def)
qed

lemma slice_stage_shape:
  "slice_stage en bl pl st = Inr (la, w', b', st2) \<Longrightarrow> \<exists>sz. shape_of w' = Inr sz"
  by (auto simp: slice_stage_def slice_resolved_def print_shapes_def
      split: sum.splits option.splits if_splits)

lemma put_replace_layer_raises:
  "shape_of w = Inr sz \<Longrightarrow> fst (put_replace_layer la ign w b st) \<noteq> None"
  by (auto simp: put_replace_layer_def set_param_misbound split: option.splits sum.splits)

lemma replacement_always_raises:
  assumes reach: "slice_stage en bl pl st = Inr (la, w', b', st2)"
    and rep: "replace_layer pl = Some rcls"
  shows "fst (shard_instruction en bl pl st) \<noteq> None"
proof -
  from slice_stage_shape[OF reach] obtain sz where sh: "shape_of w' = Inr sz" by auto
  have si: "shard_instruction en bl pl st = replace_or_set en pl la w' b' st2"
    using reach by (simp add: shard_instruction_def)
  show ?thesis
    unfolding si using rep sh put_replace_layer_raises[OF sh]
    by (auto simp: replace_or_set_def split: sum.splits option.splits prod.splits)
qed

text \<open>
  C1. After an instruction with a replacement class, the new instance sits at
  \<open>layer_attr\<close> and the sliced weight and bias are its parameters. The source fails
  the second half: lines 189 and 193 call \<^verbatim>\<open>self.set_param(replace_layer, weight, bias)\<close>,
  whose parameters are \<^verbatim>\<open>(layer, layer_attr, weight, bias)\<close>, so the sliced weight is
  taken for \<open>layer_attr\<close>, the sliced bias for the weight, and the bias is \<^verbatim>\<open>None\<close>. With
  a sliced bias the call raises \<^verbatim>\<open>TypeError\<close>, without one \<^verbatim>\<open>AssertionError\<close>; the
  replacement is at \<open>layer_attr\<close> by then, with the weight it was constructed with. In
  the example the sliced weight is \<open>Tensor [1, 2] [1, 2]\<close> and the replacement's weight
  stays \<^verbatim>\<open>None\<close>. Line 198, the case without a replacement class, passes \<open>layer_attr\<close>
  and does what the claim says (\<open>no_replacement_installs\<close>).
\<close>

theorem replacement_parameters_not_installed:
  "shard_instruction ex_env [ex_Head] ex_row (ex_state ex_block) =
     (Some TypeError,
      \<lparr>org_layer = Node ex_Block
          [(''dense'', VObj (ex_construct ex_Row (LinearArgs 2 1 True None)))],
       binding_map = [ex_Head \<mapsto> (VTensor (Tensor [1, 2] [1, 2]), VParam (Tensor [2] [5, 6]))],
       loc_gather_output = None,
       loc_replace_layer = Some (ex_construct ex_Row (LinearArgs 2 1 True None))\<rparr>)
   \<and> getattr_dot (Node ex_Block
          [(''dense'', VObj (ex_construct ex_Row (LinearArgs 2 1 True None)))])
        ''dense.weight'' False = Inr VNone
   \<and> fst (shard_instruction ex_env [ex_Head] ex_row_nobias (ex_state ex_block))
       = Some AssertionError"
  by (simp add: ex_row_outcome ex_row_nobias_outcome getattr_dot_def ex_construct_def)
section \<open>Injecting the shard-aware class\<close>

lemma class_getattr_own:
  "map_of (cdict (ct c)) key = Some d \<Longrightarrow> class_getattr ct c key = Some d"
  by (simp add: class_getattr_def)

lemma class_getattr_setattr_same:
  "class_getattr (class_setattr ct c key d) c key = Some d"
  by (simp add: class_getattr_def class_setattr_def update_conv')

lemma class_setattr_own_other:
  "map_of (cdict (class_setattr ct c key d c')) k =
     (if c' = c \<and> k = key then Some d else map_of (cdict (ct c')) k)"
  by (simp add: class_setattr_def update_conv')

lemma class_setattr_bases: "cbases (class_setattr ct c key d c') = cbases (ct c')"
  by (simp add: class_setattr_def)

lemma lookup_bases_setattr_other:
  "k \<noteq> key \<Longrightarrow> lookup_bases (class_setattr ct c key d) cs k = lookup_bases ct cs k"
  by (induction cs) (auto simp: class_setattr_own_other split: option.splits)

lemma class_getattr_setattr_other:
  "k \<noteq> key \<Longrightarrow> class_getattr (class_setattr ct c key d) c' k = class_getattr ct c' k"
proof -
  assume "k \<noteq> key"
  then have "lookup_bases (class_setattr ct c key d) (c' # cbases (ct c')) k =
             lookup_bases ct (c' # cbases (ct c')) k"
    by (rule lookup_bases_setattr_other)
  then show ?thesis by (simp only: class_getattr_def class_setattr_bases)
qed

lemma class_setattr_same_value:
  assumes "map_of (cdict (ct sc)) key = Some d"
  shows "map_of (cdict (class_setattr ct mc key d sc)) = map_of (cdict (ct sc))"
  using assms by (auto simp: class_setattr_own_other fun_eq_iff)

lemma class_hasattr_setattr:
  "class_hasattr (class_setattr ct c key d) c k = (k = key \<or> class_hasattr ct c k)"
  by (cases "k = key")
     (simp_all add: class_hasattr_def class_getattr_setattr_same class_getattr_setattr_other)

lemma inject_keys_result:
  assumes own: "\<forall>k. k \<in> set keys \<longrightarrow> map_of (cdict (ct sc)) k \<noteq> None"
  shows "\<exists>ct'. inject_keys ct mc sc keys = (None, ct')
           \<and> (\<forall>c. c \<noteq> mc \<longrightarrow> ct' c = ct c)
           \<and> map_of (cdict (ct' sc)) = map_of (cdict (ct sc))
           \<and> (\<forall>k. class_getattr ct' mc k =
                  (if k \<in> set keys \<and> class_hasattr ct mc k then map_of (cdict (ct sc)) k
                   else class_getattr ct mc k))"
  using own
proof (induction keys arbitrary: ct)
  case Nil
  show ?case by simp
next
  case (Cons key keys)
  show ?case
  proof (cases "class_hasattr ct mc key")
    case False
    from Cons.prems have "\<forall>k. k \<in> set keys \<longrightarrow> map_of (cdict (ct sc)) k \<noteq> None" by simp
    from Cons.IH[where ct = ct, OF this] obtain ct' where
      r: "inject_keys ct mc sc keys = (None, ct')"
      and o: "\<forall>c. c \<noteq> mc \<longrightarrow> ct' c = ct c"
      and m: "map_of (cdict (ct' sc)) = map_of (cdict (ct sc))"
      and g: "\<forall>k. class_getattr ct' mc k =
                  (if k \<in> set keys \<and> class_hasattr ct mc k then map_of (cdict (ct sc)) k
                   else class_getattr ct mc k)"
      by blast
    have "inject_keys ct mc sc (key # keys) = (None, ct')" using False r by simp
    moreover have "\<forall>k. class_getattr ct' mc k =
                  (if k \<in> set (key # keys) \<and> class_hasattr ct mc k then map_of (cdict (ct sc)) k
                   else class_getattr ct mc k)"
      using g False by auto
    ultimately show ?thesis using o m by blast
  next
    case True
    from Cons.prems obtain d where d: "map_of (cdict (ct sc)) key = Some d" by auto
    let ?ct1 = "class_setattr ct mc key d"
    have m1: "map_of (cdict (?ct1 sc)) = map_of (cdict (ct sc))"
      using d by (rule class_setattr_same_value)
    with Cons.prems have "\<forall>k. k \<in> set keys \<longrightarrow> map_of (cdict (?ct1 sc)) k \<noteq> None" by simp
    from Cons.IH[where ct = ?ct1, OF this] obtain ct' where
      r: "inject_keys ?ct1 mc sc keys = (None, ct')"
      and o: "\<forall>c. c \<noteq> mc \<longrightarrow> ct' c = ?ct1 c"
      and m: "map_of (cdict (ct' sc)) = map_of (cdict (?ct1 sc))"
      and g: "\<forall>k. class_getattr ct' mc k =
                  (if k \<in> set keys \<and> class_hasattr ?ct1 mc k then map_of (cdict (?ct1 sc)) k
                   else class_getattr ?ct1 mc k)"
      by blast
    have "inject_keys ct mc sc (key # keys) = (None, ct')"
      using True d r by (simp add: class_getattr_own)
    moreover have "\<forall>c. c \<noteq> mc \<longrightarrow> ct' c = ct c"
      using o by (simp add: class_setattr_def)
    moreover have "\<forall>k. class_getattr ct' mc k =
                  (if k \<in> set (key # keys) \<and> class_hasattr ct mc k then map_of (cdict (ct sc)) k
                   else class_getattr ct mc k)"
    proof
      fix k
      show "class_getattr ct' mc k =
                  (if k \<in> set (key # keys) \<and> class_hasattr ct mc k then map_of (cdict (ct sc)) k
                   else class_getattr ct mc k)"
      proof (cases "k = key")
        case True
        with g m1 d \<open>class_hasattr ct mc key\<close> show ?thesis
          by (simp add: class_hasattr_setattr class_getattr_setattr_same)
      next
        case False
        with g m1 show ?thesis
          by (simp add: class_hasattr_setattr class_getattr_setattr_other)
      qed
    qed
    ultimately show ?thesis using m m1 by auto
  qed
qed

text \<open>
  C5. When the model's class is not the policy's origin class, \<^verbatim>\<open>inject_model\<close> raises
  \<^verbatim>\<open>NotImplementedError\<close> (the specification's UnsupportedModelError) and the class
  table is as before. Otherwise it returns, and every name of the shard-aware class's
  own \<^verbatim>\<open>__dict__\<close> that the model's class has is bound on the model's class to the
  shard-aware class's definition; every other name of the model's class is as before.
\<close>

theorem inject_model_rebinds_or_fails:
  "if ncls model = fst ip
   then \<exists>ct'. inject_model ip model ct = (None, ct')
          \<and> (\<forall>key. class_getattr ct' (ncls model) key =
                 (if map_of (cdict (ct (snd ip))) key \<noteq> None \<and> class_hasattr ct (ncls model) key
                  then class_getattr ct (snd ip) key
                  else class_getattr ct (ncls model) key))
   else inject_model ip model ct = (Some UnsupportedModelError, ct)"
proof (cases "ncls model = fst ip")
  case False
  then show ?thesis by (simp add: inject_model_def)
next
  case True
  let ?sc = "snd ip" and ?mc = "ncls model"
  let ?keys = "map fst (cdict (ct ?sc))"
  have own: "\<forall>k. k \<in> set ?keys \<longrightarrow> map_of (cdict (ct ?sc)) k \<noteq> None"
    by (auto simp: map_of_eq_None_iff)
  have keys: "\<And>k. k \<in> set ?keys \<longleftrightarrow> map_of (cdict (ct ?sc)) k \<noteq> None"
    by (auto simp: map_of_eq_None_iff)
  from inject_keys_result[where ct = ct and sc = ?sc and keys = ?keys and mc = ?mc, OF own]
  obtain ct' where
    r: "inject_keys ct ?mc ?sc ?keys = (None, ct')"
    and g: "\<forall>k. class_getattr ct' ?mc k =
                  (if k \<in> set ?keys \<and> class_hasattr ct ?mc k then map_of (cdict (ct ?sc)) k
                   else class_getattr ct ?mc k)"
    by blast
  have "\<forall>key. class_getattr ct' ?mc key =
                 (if map_of (cdict (ct ?sc)) key \<noteq> None \<and> class_hasattr ct ?mc key
                  then class_getattr ct ?sc key
                  else class_getattr ct ?mc key)"
    using g unfolding keys by (auto simp: class_getattr_own)
  with True r show ?thesis by (simp add: inject_model_def)
qed

theorem inject_model_witness:
  "(\<exists>ct'. inject_model (ex_Model, ex_Model_shard) ex_model ex_classes = (None, ct')
      \<and> class_getattr ct' ex_Model ''forward'' = Some ''Model_.forward''
      \<and> class_getattr ct' ex_Model ''generate'' = Some ''Model.generate''
      \<and> class_getattr ct' ex_Model ''all_gather'' = None)
   \<and> inject_model (ex_Model, ex_Model_shard) ex_block ex_classes
       = (Some UnsupportedModelError, ex_classes)"
proof -
  have a: "ncls ex_model = fst (ex_Model, ex_Model_shard)" by (simp add: ex_defs)
  have b: "ncls ex_block \<noteq> fst (ex_Model, ex_Model_shard)" by (simp add: ex_defs)
  have g: "class_getattr ex_classes ex_Model ''forward'' = Some ''Model.forward''"
    "class_getattr ex_classes ex_Model ''generate'' = Some ''Model.generate''"
    "class_getattr ex_classes ex_Model ''all_gather'' = None"
    "class_getattr ex_classes ex_Model_shard ''forward'' = Some ''Model_.forward''"
    "map_of (cdict (ex_classes ex_Model_shard)) ''forward'' = Some ''Model_.forward''"
    "map_of (cdict (ex_classes ex_Model_shard)) ''generate'' = None"
    "map_of (cdict (ex_classes ex_Model_shard)) ''all_gather'' = Some ''Model_.all_gather''"
    by (simp_all add: class_getattr_def ex_defs)
  from inject_model_rebinds_or_fails[of ex_model "(ex_Model, ex_Model_shard)" ex_classes] a
  obtain ct' where
    r: "inject_model (ex_Model, ex_Model_shard) ex_model ex_classes = (None, ct')"
    and k: "\<forall>key. class_getattr ct' (ncls ex_model) key =
                 (if map_of (cdict (ex_classes (snd (ex_Model, ex_Model_shard)))) key \<noteq> None
                      \<and> class_hasattr ex_classes (ncls ex_model) key
                  then class_getattr ex_classes (snd (ex_Model, ex_Model_shard)) key
                  else class_getattr ex_classes (ncls ex_model) key)"
    by auto
  have m: "ncls ex_model = ex_Model" by (simp add: ex_defs)
  have "class_getattr ct' ex_Model ''forward'' = Some ''Model_.forward''"
    "class_getattr ct' ex_Model ''generate'' = Some ''Model.generate''"
    "class_getattr ct' ex_Model ''all_gather'' = None"
    using k[rule_format, of "''forward''"] k[rule_format, of "''generate''"]
      k[rule_format, of "''all_gather''"] g
    by (simp_all add: m class_hasattr_def)
  with r have first:
    "\<exists>ct'. inject_model (ex_Model, ex_Model_shard) ex_model ex_classes = (None, ct')
      \<and> class_getattr ct' ex_Model ''forward'' = Some ''Model_.forward''
      \<and> class_getattr ct' ex_Model ''generate'' = Some ''Model.generate''
      \<and> class_getattr ct' ex_Model ''all_gather'' = None" by blast
  from inject_model_rebinds_or_fails[of ex_block "(ex_Model, ex_Model_shard)" ex_classes] b
  have "inject_model (ex_Model, ex_Model_shard) ex_block ex_classes
       = (Some UnsupportedModelError, ex_classes)" by simp
  with first show ?thesis by blast
qed

section \<open>The traversal\<close>








section \<open>The binding map\<close>

















section \<open>The owning sub-path of an instruction (line 171)\<close>

lemma join_split_dot: "join_dot (split_dot a) = a"
proof (induction a)
  case Nil
  show ?case by simp
next
  case (Cons c a)
  obtain w ws where sp: "split_dot a = w # ws"
    using split_dot_not_Nil[of a] by (cases "split_dot a") auto
  with Cons show ?case by (cases ws) auto
qed

lemma strip_last_component_dotted:
  "CHR ''.'' \<notin> set b \<Longrightarrow> strip_last_component (a @ CHR ''.'' # b) = a"
  by (simp add: strip_last_component_def split_dot_append split_dot_nodot butlast_append
      join_split_dot)

text \<open>
  On a path with a dot the source computes what the specification says: the path
  without its last component.
\<close>

lemma layer_attr_of_strips_dotted:
  "CHR ''.'' \<notin> set b \<Longrightarrow>
     layer_attr_of (a @ CHR ''.'' # b) = strip_last_component (a @ CHR ''.'' # b)"
  by (simp add: layer_attr_of_dotted strip_last_component_dotted)

text \<open>
  C9. The owning sub-path is the given path with its final dotted component removed,
  also for a path of one component. The source fails this on a path without a dot:
  \<^verbatim>\<open>rfind\<close> returns \<open>-1\<close> there and \<^verbatim>\<open>x[:-1]\<close> drops the last character, so
  \<^verbatim>\<open>"weight"\<close> gives \<^verbatim>\<open>"weigh"\<close> where removing the only component leaves the empty
  path, the one \<^verbatim>\<open>set_param\<close> treats as the layer itself.
\<close>

theorem layer_attr_of_single_component:
  "layer_attr_of ''weight'' = ''weigh'' \<and> strip_last_component ''weight'' = ''''"
  by (simp add: layer_attr_of_def rfind_dot_def slice_to_def strip_last_component_def)

end
